theory Spec2Isabelle
  imports Main "HOL-Library.Word"
begin

unbundle bit_operations_syntax

section \<open>Python values used by rmmvlt.py\<close>

text \<open>
  Python strings are modelled as \<^typ>\<open>string\<close>: a character stands for the code point
  of the same number (0 to 255).  Exceptions are values of \<open>error\<close>; a function that can
  raise returns \<open>error + 'a\<close> with \<open>Inl\<close> for the exception.
\<close>

datatype error = KeyError | IndexError | TypeError | AttributeError | ValueError
  | FileNotFoundError

text \<open>\<^verbatim>\<open>sep.join(xs)\<close>\<close>

fun join :: "string \<Rightarrow> string list \<Rightarrow> string" where
  "join sep [] = []"
| "join sep [x] = x"
| "join sep (x # y # ys) = x @ sep @ join sep (y # ys)"

text \<open>\<^verbatim>\<open>s.split(c)\<close> for a one-character separator: never empty, \<open>''''\<close> gives \<open>['''']\<close>.\<close>

fun split :: "char \<Rightarrow> string \<Rightarrow> string list" where
  "split sep [] = [[]]"
| "split sep (c # cs) =
     (if c = sep then [] # split sep cs
      else (case split sep cs of
              [] \<Rightarrow> [[c]]
            | w # ws \<Rightarrow> (c # w) # ws))"

text \<open>\<^verbatim>\<open>needle in haystack\<close> for strings.\<close>

fun contains :: "string \<Rightarrow> string \<Rightarrow> bool" where
  "contains needle [] = (needle = [])"
| "contains needle (c # cs) = (take (length needle) (c # cs) = needle \<or> contains needle cs)"

definition startswith :: "string \<Rightarrow> string \<Rightarrow> bool" where
  "startswith s pre = (take (length pre) s = pre)"

text \<open>\<^verbatim>\<open>str(x)\<close> of an optional string: \<^verbatim>\<open>str(None)\<close> is the text \<^verbatim>\<open>None\<close>.\<close>

fun py_str :: "string option \<Rightarrow> string" where
  "py_str None = ''None''"
| "py_str (Some s) = s"

text \<open>
  A \<^verbatim>\<open>dict\<close> keeps insertion order: \<^verbatim>\<open>d[k] = v\<close> replaces the value of an
  existing key where it stands and appends a new key at the end.
\<close>

fun dict_set :: "'k \<Rightarrow> 'v \<Rightarrow> ('k \<times> 'v) list \<Rightarrow> ('k \<times> 'v) list" where
  "dict_set k v [] = [(k, v)]"
| "dict_set k v ((k', v') # kvs) =
     (if k' = k then (k, v) # kvs else (k', v') # dict_set k v kvs)"

definition dict_get :: "('k \<times> 'v) list \<Rightarrow> 'k \<Rightarrow> 'v option" where
  "dict_get kvs k = map_of kvs k"

definition dict_keys :: "('k \<times> 'v) list \<Rightarrow> 'k list" where
  "dict_keys kvs = map fst kvs"

section \<open>hashlib.sha256 and the UTF-8 encoding\<close>

type_synonym word32 = "32 word"
type_synonym byte = "8 word"

definition utf8_char :: "char \<Rightarrow> byte list" where
  "utf8_char c =
     (let n = (of_char c :: nat)
      in if n < 128 then [of_nat n]
         else [of_nat (192 + n div 64), of_nat (128 + n mod 64)])"

definition utf8_encode :: "string \<Rightarrow> byte list" where
  "utf8_encode s = concat (map utf8_char s)"

definition rotr :: "nat \<Rightarrow> word32 \<Rightarrow> word32" where
  "rotr n x = drop_bit n x OR push_bit (32 - n) x"

definition sha_K :: "word32 list" where
  "sha_K = [0x428A2F98, 0x71374491, 0xB5C0FBCF, 0xE9B5DBA5, 0x3956C25B, 0x59F111F1, 0x923F82A4, 0xAB1C5ED5,
    0xD807AA98, 0x12835B01, 0x243185BE, 0x550C7DC3, 0x72BE5D74, 0x80DEB1FE, 0x9BDC06A7, 0xC19BF174,
    0xE49B69C1, 0xEFBE4786, 0x0FC19DC6, 0x240CA1CC, 0x2DE92C6F, 0x4A7484AA, 0x5CB0A9DC, 0x76F988DA,
    0x983E5152, 0xA831C66D, 0xB00327C8, 0xBF597FC7, 0xC6E00BF3, 0xD5A79147, 0x06CA6351, 0x14292967,
    0x27B70A85, 0x2E1B2138, 0x4D2C6DFC, 0x53380D13, 0x650A7354, 0x766A0ABB, 0x81C2C92E, 0x92722C85,
    0xA2BFE8A1, 0xA81A664B, 0xC24B8B70, 0xC76C51A3, 0xD192E819, 0xD6990624, 0xF40E3585, 0x106AA070,
    0x19A4C116, 0x1E376C08, 0x2748774C, 0x34B0BCB5, 0x391C0CB3, 0x4ED8AA4A, 0x5B9CCA4F, 0x682E6FF3,
    0x748F82EE, 0x78A5636F, 0x84C87814, 0x8CC70208, 0x90BEFFFA, 0xA4506CEB, 0xBEF9A3F7, 0xC67178F2]"

type_synonym sha_state =
  "word32 \<times> word32 \<times> word32 \<times> word32 \<times> word32 \<times> word32 \<times> word32 \<times> word32"

definition sha_init :: sha_state where
  "sha_init = (0x6A09E667, 0xBB67AE85, 0x3C6EF372, 0xA54FF53A,
               0x510E527F, 0x9B05688C, 0x1F83D9AB, 0x5BE0CD19)"

text \<open>Padding: the byte 0x80, zeros up to 56 modulo 64, the bit length in 8 bytes.\<close>

definition sha_pad :: "byte list \<Rightarrow> byte list" where
  "sha_pad m =
     (let l = length m;
          z = (119 - l mod 64) mod 64;
          bits = (of_nat (8 * l) :: 64 word)
      in m @ [0x80] @ replicate z 0 @ map (\<lambda>i. ucast (drop_bit (8 * (7 - i)) bits)) [0..<8])"

fun be_words :: "byte list \<Rightarrow> word32 list" where
  "be_words (a # b # c # d # bs) =
     (push_bit 24 (ucast a) OR push_bit 16 (ucast b) OR push_bit 8 (ucast c) OR ucast d) # be_words bs"
| "be_words _ = []"

fun sha_schedule :: "nat \<Rightarrow> word32 list \<Rightarrow> word32 list" where
  "sha_schedule 0 w = w"
| "sha_schedule (Suc n) w =
     (let t = length w;
          x15 = w ! (t - 15); x2 = w ! (t - 2);
          s0 = rotr 7 x15 XOR rotr 18 x15 XOR drop_bit 3 x15;
          s1 = rotr 17 x2 XOR rotr 19 x2 XOR drop_bit 10 x2
      in sha_schedule n (w @ [w ! (t - 16) + s0 + w ! (t - 7) + s1]))"

fun sha_round :: "sha_state \<Rightarrow> word32 \<times> word32 \<Rightarrow> sha_state" where
  "sha_round (a, b, c, d, e, f, g, h) (k, w) =
     (let S1 = rotr 6 e XOR rotr 11 e XOR rotr 25 e;
          ch = (e AND f) XOR (NOT e AND g);
          t1 = h + S1 + ch + k + w;
          S0 = rotr 2 a XOR rotr 13 a XOR rotr 22 a;
          maj = (a AND b) XOR (a AND c) XOR (b AND c);
          t2 = S0 + maj
      in (t1 + t2, a, b, c, d + t1, e, f, g))"

fun sha_add :: "sha_state \<Rightarrow> sha_state \<Rightarrow> sha_state" where
  "sha_add (a, b, c, d, e, f, g, h) (a', b', c', d', e', f', g', h') =
     (a + a', b + b', c + c', d + d', e + e', f + f', g + g', h + h')"

definition sha_compress :: "sha_state \<Rightarrow> byte list \<Rightarrow> sha_state" where
  "sha_compress st block =
     sha_add st (foldl sha_round st (zip sha_K (sha_schedule 48 (be_words block))))"

function sha_blocks :: "sha_state \<Rightarrow> byte list \<Rightarrow> sha_state" where
  "sha_blocks st bs =
     (if length bs < 64 then st else sha_blocks (sha_compress st (take 64 bs)) (drop 64 bs))"
  by pat_completeness auto
termination
  by (relation "measure (\<lambda>(st, bs). length bs)") auto

definition hex_digit :: "nat \<Rightarrow> char" where
  "hex_digit n = ''0123456789abcdef'' ! (n mod 16)"

definition hex_word :: "word32 \<Rightarrow> string" where
  "hex_word w = map (\<lambda>i. hex_digit (unat (drop_bit (4 * (7 - i)) w AND 15))) [0..<8]"

fun sha_hex :: "sha_state \<Rightarrow> string" where
  "sha_hex (a, b, c, d, e, f, g, h) = concat (map hex_word [a, b, c, d, e, f, g, h])"

text \<open>\<^verbatim>\<open>hashlib.sha256(m).hexdigest()\<close>\<close>

definition sha256_hexdigest :: "byte list \<Rightarrow> string" where
  "sha256_hexdigest m = sha_hex (sha_blocks sha_init (sha_pad m))"

section \<open>LocalizationProcessor\<close>

record entry_context =
  ctx_file :: string
  ctx_path :: string
  ctx_event_id :: "string option"
  ctx_map_id :: "string option"

text \<open>
  An entry of the translation map, with its keys \<^verbatim>\<open>"original"\<close>, \<^verbatim>\<open>"context"\<close> and
  \<^verbatim>\<open>"translations"\<close>; \<open>trans\<close> is \<open>None\<close> while the entry has no \<^verbatim>\<open>"translations"\<close> key.
\<close>

record entry =
  original :: string
  ctx :: entry_context
  trans :: "(string \<times> string) list option"

record processor =
  translation_map :: "(string \<times> entry) list"
  processed_strings :: "string set"

text \<open>\<^verbatim>\<open>LocalizationProcessor.__init__\<close>\<close>

definition processor_init :: processor where
  "processor_init = \<lparr>translation_map = [], processed_strings = {}\<rparr>"

text \<open>The string that is hashed: the five components joined by \<^verbatim>\<open>||\<close>.\<close>

definition hashed_string ::
    "string \<Rightarrow> string \<Rightarrow> string \<Rightarrow> string option \<Rightarrow> string option \<Rightarrow> string" where
  "hashed_string text file_path context_path ev mp =
     join ''||'' [text, file_path, context_path, py_str ev, py_str mp]"

text \<open>
  \<^verbatim>\<open>generate_fingerprint\<close> is a method: it takes the processor and returns its result
  together with the processor it leaves behind.
\<close>

definition generate_fingerprint ::
    "processor \<Rightarrow> string \<Rightarrow> string \<Rightarrow> string \<Rightarrow> string option \<Rightarrow> string option
       \<Rightarrow> string \<times> processor" where
  "generate_fingerprint self text file_path context_path ev mp =
     (let components = [text, file_path, context_path, py_str ev, py_str mp];
          fingerprint_string = join ''||'' components;
          hexdigest = sha256_hexdigest (utf8_encode fingerprint_string)
      in (take 16 hexdigest, self))"

definition process_string ::
    "processor \<Rightarrow> string \<Rightarrow> string \<Rightarrow> string \<Rightarrow> string option \<Rightarrow> string option
       \<Rightarrow> processor" where
  "process_string self text file_path context_path ev mp =
     (let (fingerprint, self1) = generate_fingerprint self text file_path context_path ev mp;
          e = \<lparr>original = text,
               ctx = \<lparr>ctx_file = file_path, ctx_path = context_path,
                      ctx_event_id = ev, ctx_map_id = mp\<rparr>,
               trans = None\<rparr>
      in self1\<lparr>translation_map := dict_set fingerprint e (translation_map self1),
                processed_strings := insert text (processed_strings self1)\<rparr>)"

text \<open>A sequence of \<^verbatim>\<open>process_string\<close> calls, each given by its five arguments.\<close>

type_synonym call = "string \<times> string \<times> string \<times> string option \<times> string option"

fun process_call :: "processor \<Rightarrow> call \<Rightarrow> processor" where
  "process_call self (text, file_path, context_path, ev, mp) =
     process_string self text file_path context_path ev mp"

definition process_calls :: "processor \<Rightarrow> call list \<Rightarrow> processor" where
  "process_calls self cs = foldl process_call self cs"

definition is_hex_char :: "char \<Rightarrow> bool" where
  "is_hex_char c = (c \<in> set ''0123456789abcdef'')"

text \<open>The key recomputed from the fields an entry stores.\<close>

definition entry_fingerprint :: "entry \<Rightarrow> string" where
  "entry_fingerprint e =
     fst (generate_fingerprint processor_init (original e) (ctx_file (ctx e))
            (ctx_path (ctx e)) (ctx_event_id (ctx e)) (ctx_map_id (ctx e)))"

definition keyed_by_fingerprint :: "(string \<times> entry) list \<Rightarrow> bool" where
  "keyed_by_fingerprint tm = list_all (\<lambda>(k, e). k = entry_fingerprint e) tm"

section \<open>JSON documents and Python subscripting\<close>

text \<open>
  What \<^verbatim>\<open>json.load\<close> returns: \<^verbatim>\<open>None\<close>, a bool, a number, a string, a list or a dict.
  The keys of a loaded dict are strings; an assignment \<^verbatim>\<open>d[0] = v\<close> adds an integer key, so
  a key is a string or an integer.  Only integral numbers are modelled.
\<close>

datatype key = KStr string | KInt nat

datatype json = JNull | JBool bool | JNum int | JStr string
  | JList "json list" | JObj "(key \<times> json) list"

text \<open>
  \<^verbatim>\<open>str.isdigit\<close> on the code points below 256: the ten decimal digits and the superscript
  digits (178, 179 and 185).  \<^verbatim>\<open>int(s)\<close> of a string of decimal digits is its value (leading
  zeros allowed); a superscript digit makes \<^verbatim>\<open>int\<close> raise \<^verbatim>\<open>ValueError\<close>.  \<open>py_int\<close> is
  \<^verbatim>\<open>int\<close> on the strings \<^verbatim>\<open>isdigit\<close> accepts, the only ones it is called on; the bound that
  recent interpreters put on the number of digits is not modelled.
\<close>

definition is_decimal_char :: "char \<Rightarrow> bool" where
  "is_decimal_char c = (c \<in> set ''0123456789'')"

definition is_digit_char :: "char \<Rightarrow> bool" where
  "is_digit_char c = (is_decimal_char c \<or> of_char c \<in> {178, 179, 185 :: nat})"

definition isdigit :: "string \<Rightarrow> bool" where
  "isdigit s = (s \<noteq> [] \<and> list_all is_digit_char s)"

definition py_int :: "string \<Rightarrow> error + nat" where
  "py_int s =
     (if s \<noteq> [] \<and> list_all is_decimal_char s
      then Inr (foldl (\<lambda>n c. 10 * n + (of_char c - 48)) 0 s)
      else Inl ValueError)"

text \<open>\<^verbatim>\<open>str(n)\<close> of a non-negative integer.\<close>

function str_nat :: "nat \<Rightarrow> string" where
  "str_nat n =
     (if n < 10 then [''0123456789'' ! n]
      else str_nat (n div 10) @ [''0123456789'' ! (n mod 10)])"
  by pat_completeness auto
termination
  by (relation "measure id") auto

declare str_nat.simps [simp del]

text \<open>\<^verbatim>\<open>target[comp]\<close> read.  A string is a sequence of one-character strings.\<close>

fun py_getitem :: "json \<Rightarrow> key \<Rightarrow> error + json" where
  "py_getitem (JList xs) (KInt n) = (if n < length xs then Inr (xs ! n) else Inl IndexError)"
| "py_getitem (JList xs) (KStr s) = Inl TypeError"
| "py_getitem (JObj kvs) k = (case map_of kvs k of None \<Rightarrow> Inl KeyError | Some v \<Rightarrow> Inr v)"
| "py_getitem (JStr s) (KInt n) = (if n < length s then Inr (JStr [s ! n]) else Inl IndexError)"
| "py_getitem (JStr s) (KStr k) = Inl TypeError"
| "py_getitem JNull k = Inl TypeError"
| "py_getitem (JBool b) k = Inl TypeError"
| "py_getitem (JNum i) k = Inl TypeError"

text \<open>\<^verbatim>\<open>target[comp] = v\<close>\<close>

fun py_setitem :: "json \<Rightarrow> key \<Rightarrow> json \<Rightarrow> error + json" where
  "py_setitem (JList xs) (KInt n) v =
     (if n < length xs then Inr (JList (xs[n := v])) else Inl IndexError)"
| "py_setitem (JList xs) (KStr s) v = Inl TypeError"
| "py_setitem (JObj kvs) k v = Inr (JObj (dict_set k v kvs))"
| "py_setitem (JStr s) k v = Inl TypeError"
| "py_setitem JNull k v = Inl TypeError"
| "py_setitem (JBool b) k v = Inl TypeError"
| "py_setitem (JNum i) k v = Inl TypeError"

text \<open>
  The walk of \<^verbatim>\<open>patch_file\<close> holds references into \<^verbatim>\<open>data\<close>: the assignment at the end
  changes the container it reached, inside \<^verbatim>\<open>data\<close>.  A loaded document is a tree, so the
  model rebuilds the containers on the way back: \<open>store_child\<close> puts the changed child
  where the walk read it.  A one-character string read out of a string is a new value;
  nothing is stored back into a string.
\<close>

fun store_child :: "json \<Rightarrow> key \<Rightarrow> json \<Rightarrow> json" where
  "store_child (JList xs) (KInt n) c = JList (xs[n := c])"
| "store_child (JObj kvs) k c = JObj (dict_set k c kvs)"
| "store_child target k c = target"

text \<open>
  Files.  A file holds a JSON text, given by its tree; the members of an object are a list
  of pairs in the order of the text.  \<^verbatim>\<open>json.load\<close> builds each dict by assigning the members
  in turn (of a repeated key the last value stays, at the place of the first), and
  \<^verbatim>\<open>json.dump\<close> writes an integer key as its decimal text.
\<close>

fun json_load :: "json \<Rightarrow> json" where
  "json_load (JList xs) = JList (map json_load xs)"
| "json_load (JObj kvs) =
     JObj (foldl (\<lambda>d (k, v). dict_set k v d) [] (map (\<lambda>(k, v). (k, json_load v)) kvs))"
| "json_load v = v"

fun dump_key :: "key \<Rightarrow> key" where
  "dump_key (KStr s) = KStr s"
| "dump_key (KInt n) = KStr (str_nat n)"

fun json_dump :: "json \<Rightarrow> json" where
  "json_dump (JList xs) = JList (map json_dump xs)"
| "json_dump (JObj kvs) = JObj (map (\<lambda>(k, v). (dump_key k, json_dump v)) kvs)"
| "json_dump v = v"

type_synonym files = "string \<rightharpoonup> json"

section \<open>LocalizationProcessor.process_map_files\<close>

definition and_then :: "error + 'a \<Rightarrow> ('a \<Rightarrow> error + 'b) \<Rightarrow> error + 'b" where
  "and_then m f = (case m of Inl e \<Rightarrow> Inl e | Inr x \<Rightarrow> f x)"

text \<open>
  \<^verbatim>\<open>for x in v\<close>: the elements of a list, the keys of a dict, the characters of a string;
  nothing else is iterable.
\<close>

fun key_value :: "key \<Rightarrow> json" where
  "key_value (KStr s) = JStr s"
| "key_value (KInt n) = JNum (int n)"

fun py_iter :: "json \<Rightarrow> error + json list" where
  "py_iter (JList xs) = Inr xs"
| "py_iter (JObj kvs) = Inr (map (\<lambda>kv. key_value (fst kv)) kvs)"
| "py_iter (JStr s) = Inr (map (\<lambda>c. JStr [c]) s)"
| "py_iter v = Inl TypeError"

text \<open>\<^verbatim>\<open>"name" in v\<close>\<close>

fun py_contains :: "string \<Rightarrow> json \<Rightarrow> error + bool" where
  "py_contains k (JObj kvs) = Inr (map_of kvs (KStr k) \<noteq> None)"
| "py_contains k (JList xs) = Inr (JStr k \<in> set xs)"
| "py_contains k (JStr s) = Inr (contains k s)"
| "py_contains k v = Inl TypeError"

text \<open>\<^verbatim>\<open>for i, x in enumerate(xs)\<close>, with the processor passed from round to round.\<close>

fun for_enumerate ::
    "(nat \<Rightarrow> json \<Rightarrow> processor \<Rightarrow> error + processor) \<Rightarrow> nat \<Rightarrow> json list \<Rightarrow> processor
       \<Rightarrow> error + processor" where
  "for_enumerate body i [] self = Inr self"
| "for_enumerate body i (x # xs) self =
     and_then (body i x self) (for_enumerate body (Suc i) xs)"

text \<open>
  \<^verbatim>\<open>process_string\<close> called with a value of the document: \<^verbatim>\<open>'||'.join\<close> raises
  \<^verbatim>\<open>TypeError\<close> on a text that is not a string, before the processor is changed.
\<close>

definition process_value ::
    "processor \<Rightarrow> json \<Rightarrow> string \<Rightarrow> string \<Rightarrow> string option \<Rightarrow> string option
       \<Rightarrow> error + processor" where
  "process_value self v file_path context_path ev mp =
     (case v of
        JStr text \<Rightarrow> Inr (process_string self text file_path context_path ev mp)
      | other \<Rightarrow> Inl TypeError)"

text \<open>The body of the loop over \<^verbatim>\<open>page["list"]\<close>.\<close>

definition process_command ::
    "string \<Rightarrow> string \<Rightarrow> nat \<Rightarrow> nat \<Rightarrow> nat \<Rightarrow> json \<Rightarrow> processor \<Rightarrow> error + processor" where
  "process_command file_path mp event_idx page_idx list_idx item self =
     (let context_path = ''events.'' @ str_nat event_idx @ ''.pages.'' @ str_nat page_idx
                         @ ''.list.'' @ str_nat list_idx @ ''.parameters.0''
      in and_then (py_getitem item (KStr ''code'')) (\<lambda>code.
           if code = JNum 401
           then and_then (py_getitem item (KStr ''parameters'')) (\<lambda>ps.
                and_then (py_getitem ps (KInt 0)) (\<lambda>text.
                  process_value self text file_path context_path
                    (Some (str_nat event_idx)) (Some mp)))
           else if code = JNum 102
           then and_then (py_getitem item (KStr ''parameters'')) (\<lambda>ps.
                and_then (py_getitem ps (KInt 0)) (\<lambda>choices.
                and_then (py_iter choices) (\<lambda>cs.
                  for_enumerate
                    (\<lambda>choice_idx choice self'.
                       process_value self' choice file_path
                         (context_path @ ''.'' @ str_nat choice_idx)
                         (Some (str_nat event_idx)) (Some mp))
                    0 cs self)))
           else Inr self))"

text \<open>The body of the loop over the map files, for the file of one map.\<close>

definition process_map_file :: "processor \<Rightarrow> string \<Rightarrow> string \<Rightarrow> json \<Rightarrow> error + processor" where
  "process_map_file self file_path mp data =
     and_then (py_iter data) (\<lambda>xs.
     and_then (for_enumerate
                 (\<lambda>i x self'.
                    if x = JStr ''displayName''
                    then and_then (py_getitem data (KStr ''displayName'')) (\<lambda>text.
                           process_value self' text file_path (mp @ ''.displayName'') None (Some mp))
                    else Inr self')
                 0 xs self) (\<lambda>self1.
     and_then (py_contains ''events'' data) (\<lambda>has_events.
       if \<not> has_events then Inr self1
       else and_then (py_getitem data (KStr ''events'')) (\<lambda>events.
            and_then (py_iter events) (\<lambda>evs.
              for_enumerate
                (\<lambda>event_idx event self2.
                   if event = JNull then Inr self2
                   else and_then (py_getitem event (KStr ''pages'')) (\<lambda>pages.
                        and_then (py_iter pages) (\<lambda>pgs.
                          for_enumerate
                            (\<lambda>page_idx page self3.
                               and_then (py_getitem page (KStr ''list'')) (\<lambda>l.
                               and_then (py_iter l) (\<lambda>items.
                                 for_enumerate
                                   (process_command file_path mp event_idx page_idx)
                                   0 items self3)))
                            0 pgs self2)))
                0 evs self1)))))"

text \<open>
  \<^verbatim>\<open>process_map_files\<close> over the files \<^verbatim>\<open>Map???.json\<close> of the \<^verbatim>\<open>data\<close> directory, given
  by name and content in the order of the glob: \<^verbatim>\<open>map_id\<close> is the stem without its first
  three characters, and the path recorded is the path under the project directory.
\<close>

definition map_id_of :: "string \<Rightarrow> string" where
  "map_id_of name = drop 3 (take (length name - 5) name)"

fun process_map_files :: "processor \<Rightarrow> (string \<times> json) list \<Rightarrow> error + processor" where
  "process_map_files self [] = Inr self"
| "process_map_files self ((name, doc) # rest) =
     and_then (process_map_file self (''data/'' @ name) (map_id_of name) (json_load doc))
       (\<lambda>self'. process_map_files self' rest)"

section \<open>LocalizationPatcher.patch_file\<close>

text \<open>
  \<^verbatim>\<open>if comp.isdigit(): comp = int(comp)\<close>
\<close>

definition path_component :: "string \<Rightarrow> error + key" where
  "path_component seg =
     (if isdigit seg
      then (case py_int seg of Inl e \<Rightarrow> Inl e | Inr n \<Rightarrow> Inr (KInt n))
      else Inr (KStr seg))"

text \<open>
  The body of the loop over \<^verbatim>\<open>patches.items()\<close> after the split: \<open>segs\<close> is
  \<^verbatim>\<open>components[:-1]\<close> and \<open>last_comp\<close> is \<^verbatim>\<open>components[-1]\<close>.
\<close>

fun walk_set :: "json \<Rightarrow> string list \<Rightarrow> string \<Rightarrow> json \<Rightarrow> error + json" where
  "walk_set target [] last_comp v =
     (case path_component last_comp of
        Inl e \<Rightarrow> Inl e
      | Inr k \<Rightarrow> py_setitem target k v)"
| "walk_set target (seg # segs) last_comp v =
     (case path_component seg of
        Inl e \<Rightarrow> Inl e
      | Inr k \<Rightarrow>
          (case py_getitem target k of
             Inl e \<Rightarrow> Inl e
           | Inr child \<Rightarrow>
               (case walk_set child segs last_comp v of
                  Inl e \<Rightarrow> Inl e
                | Inr child' \<Rightarrow> Inr (store_child target k child'))))"

definition apply_patch :: "json \<Rightarrow> string \<Rightarrow> string \<Rightarrow> error + json" where
  "apply_patch data path new_text =
     (let components = split CHR ''.'' path
      in walk_set data (butlast components) (last components) (JStr new_text))"

fun apply_patches :: "json \<Rightarrow> (string \<times> string) list \<Rightarrow> error + json" where
  "apply_patches data [] = Inr data"
| "apply_patches data ((path, new_text) # patches) =
     (case apply_patch data path new_text of
        Inl e \<Rightarrow> Inl e
      | Inr data' \<Rightarrow> apply_patches data' patches)"

text \<open>
  \<^verbatim>\<open>patch_file\<close> returns the files it leaves and the exception it raised, if any.  The file
  is written after the loop, so an exception in the loop leaves every file as it was.
\<close>

definition patch_file :: "files \<Rightarrow> string \<Rightarrow> (string \<times> string) list \<Rightarrow> files \<times> error option" where
  "patch_file fs file_path patches =
     (case fs file_path of
        None \<Rightarrow> (fs, Some FileNotFoundError)
      | Some doc \<Rightarrow>
          (case apply_patches (json_load doc) patches of
             Inl e \<Rightarrow> (fs, Some e)
           | Inr data \<Rightarrow> (fs(file_path \<mapsto> json_dump data), None)))"

section \<open>LocalizationPatcher.patch_misc_file and patch_all_files\<close>

text \<open>
  The inner loop of \<^verbatim>\<open>patch_misc_file\<close> over the elements of \<^verbatim>\<open>misc_strings\<close>:
  \<^verbatim>\<open>item.get("id") == target_id\<close> holds when the item is a dict whose \<^verbatim>\<open>"id"\<close> is the
  string \<open>target_id\<close>; the first such item gets the text and the loop breaks.  An item
  that is not a dict has no \<^verbatim>\<open>get\<close>.
\<close>

fun patch_items :: "json list \<Rightarrow> string \<Rightarrow> string \<Rightarrow> error + json list" where
  "patch_items [] target_id new_text = Inr []"
| "patch_items (JObj kvs # items) target_id new_text =
     (if map_of kvs (KStr ''id'') = Some (JStr target_id)
      then Inr (JObj (dict_set (KStr ''text'') (JStr new_text) kvs) # items)
      else (case patch_items items target_id new_text of
              Inl e \<Rightarrow> Inl e
            | Inr items' \<Rightarrow> Inr (JObj kvs # items')))"
| "patch_items (item # items) target_id new_text = Inl AttributeError"

text \<open>
  One round of the loop over \<^verbatim>\<open>patches.items()\<close>.  \<^verbatim>\<open>data.get\<close> needs a dict.  The
  \<^verbatim>\<open>for\<close> runs over a list; over a dict or a string it meets keys or characters, which
  have no \<^verbatim>\<open>get\<close>; any other value is not iterable.
\<close>

definition patch_misc_one :: "json \<Rightarrow> string \<Rightarrow> string \<Rightarrow> error + json" where
  "patch_misc_one data path new_text =
     (if startswith path ''misc.''
      then (case data of
              JObj kvs \<Rightarrow>
                (case map_of kvs (KStr ''misc_strings'') of
                   None \<Rightarrow> Inr data
                 | Some (JList items) \<Rightarrow>
                     (case patch_items items (drop 5 path) new_text of
                        Inl e \<Rightarrow> Inl e
                      | Inr items' \<Rightarrow> Inr (JObj (dict_set (KStr ''misc_strings'') (JList items') kvs)))
                 | Some (JObj m) \<Rightarrow> (if m = [] then Inr data else Inl AttributeError)
                 | Some (JStr s) \<Rightarrow> (if s = [] then Inr data else Inl AttributeError)
                 | Some other \<Rightarrow> Inl TypeError)
            | other \<Rightarrow> Inl AttributeError)
      else Inr data)"

fun patch_misc_all :: "json \<Rightarrow> (string \<times> string) list \<Rightarrow> error + json" where
  "patch_misc_all data [] = Inr data"
| "patch_misc_all data ((path, new_text) # patches) =
     (case patch_misc_one data path new_text of
        Inl e \<Rightarrow> Inl e
      | Inr data' \<Rightarrow> patch_misc_all data' patches)"

definition patch_misc_file ::
    "files \<Rightarrow> string \<Rightarrow> (string \<times> string) list \<Rightarrow> files \<times> error option" where
  "patch_misc_file fs file_path patches =
     (case fs file_path of
        None \<Rightarrow> (fs, Some FileNotFoundError)
      | Some doc \<Rightarrow>
          (case patch_misc_all (json_load doc) patches of
             Inl e \<Rightarrow> (fs, Some e)
           | Inr data \<Rightarrow> (fs(file_path \<mapsto> json_dump data), None)))"

text \<open>
  The patcher holds the loaded translation map and the language; files are named by their
  path under the project directory.
\<close>

record patcher =
  patcher_map :: "(string \<times> entry) list"
  language :: string

text \<open>The first loop of \<^verbatim>\<open>patch_all_files\<close>: the patches of each file, grouped.\<close>

definition add_patch ::
    "string \<Rightarrow> (string \<times> (string \<times> string) list) list \<Rightarrow> string \<times> entry
       \<Rightarrow> (string \<times> (string \<times> string) list) list" where
  "add_patch lang file_patches fe =
     (case trans (snd fe) of
        None \<Rightarrow> file_patches
      | Some tr \<Rightarrow>
          (case map_of tr lang of
             None \<Rightarrow> file_patches
           | Some translated_text \<Rightarrow>
               (let file_path = ctx_file (ctx (snd fe));
                    context_path = ctx_path (ctx (snd fe));
                    patches = (case map_of file_patches file_path of None \<Rightarrow> [] | Some ps \<Rightarrow> ps)
                in dict_set file_path (dict_set context_path translated_text patches) file_patches)))"

definition group_patches :: "patcher \<Rightarrow> (string \<times> (string \<times> string) list) list" where
  "group_patches self = foldl (add_patch (language self)) [] (patcher_map self)"

text \<open>What the run prints, line by line.\<close>

datatype message =
    Patching string
  | Success string
  | ErrorDuringPatching error
  | FingerprintNotFound string
  | Processed nat
  | Skipped nat

text \<open>
  The second loop of \<^verbatim>\<open>patch_all_files\<close>.  An exception of \<^verbatim>\<open>patch_file\<close> or
  \<^verbatim>\<open>patch_misc_file\<close> is not caught here: it ends the loop.
\<close>

definition patch_target ::
    "files \<Rightarrow> string \<Rightarrow> (string \<times> string) list \<Rightarrow> files \<times> error option" where
  "patch_target fs file_path patches =
     (if contains ''rmmvlt_misc.json'' file_path
      then patch_misc_file fs file_path patches
      else patch_file fs file_path patches)"

fun patch_files ::
    "files \<Rightarrow> message list \<Rightarrow> (string \<times> (string \<times> string) list) list
       \<Rightarrow> files \<times> message list \<times> error option" where
  "patch_files fs out [] = (fs, out, None)"
| "patch_files fs out ((file_path, patches) # rest) =
     (case patch_target fs file_path patches of
        (fs', Some e) \<Rightarrow> (fs', out @ [Patching file_path], Some e)
      | (fs', None) \<Rightarrow> patch_files fs' (out @ [Patching file_path]) rest)"

definition patch_all_files :: "patcher \<Rightarrow> files \<Rightarrow> files \<times> message list \<times> error option" where
  "patch_all_files self fs = patch_files fs [] (group_patches self)"

text \<open>
  The \<^verbatim>\<open>patch\<close> command of \<^verbatim>\<open>main\<close>, from the patcher on: \<^verbatim>\<open>except Exception\<close> prints
  the error and returns, so the process ends with status 0 on both branches.
\<close>

record run =
  run_files :: files
  run_output :: "message list"
  exit_status :: nat

definition main_patch :: "patcher \<Rightarrow> files \<Rightarrow> run" where
  "main_patch self fs =
     (case patch_all_files self fs of
        (fs', out, None) \<Rightarrow>
          \<lparr>run_files = fs', run_output = out @ [Success ''patching complete!''], exit_status = 0\<rparr>
      | (fs', out, Some e) \<Rightarrow>
          \<lparr>run_files = fs', run_output = out @ [ErrorDuringPatching e], exit_status = 0\<rparr>)"

section \<open>excel_to_translation_map\<close>

text \<open>\<^verbatim>\<open>str.strip()\<close>: the white space among the code points below 256.\<close>

definition is_space :: "char \<Rightarrow> bool" where
  "is_space c = (of_char c \<in> {9, 10, 11, 12, 13, 28, 29, 30, 31, 32, 133, 160 :: nat})"

definition strip :: "string \<Rightarrow> string" where
  "strip s = rev (dropWhile is_space (rev (dropWhile is_space s)))"

text \<open>
  A row of the sheet: \<open>row_fingerprint\<close> is \<^verbatim>\<open>str(row['Fingerprint'])\<close>, and
  \<open>row_translation\<close> is \<open>None\<close> when \<^verbatim>\<open>pd.notna\<close> is false of the translation cell, and
  the \<^verbatim>\<open>str\<close> of the cell otherwise.
\<close>

record row =
  row_fingerprint :: string
  row_translation :: "string option"

record import_state =
  imp_map :: "(string \<times> entry) list"
  processed :: nat
  skipped :: nat
  imp_output :: "message list"

text \<open>The body of the loop over the fingerprints of a row.\<close>

definition merge_translation :: "string \<Rightarrow> string \<Rightarrow> import_state \<Rightarrow> string \<Rightarrow> import_state" where
  "merge_translation lang translated_text st fingerprint =
     (case map_of (imp_map st) fingerprint of
        Some e \<Rightarrow>
          st\<lparr>imp_map :=
               dict_set fingerprint
                 (e\<lparr>trans := Some (dict_set lang translated_text
                                      (case trans e of None \<Rightarrow> [] | Some tr \<Rightarrow> tr))\<rparr>)
                 (imp_map st),
             processed := processed st + 1\<rparr>
      | None \<Rightarrow>
          st\<lparr>imp_output := imp_output st @ [FingerprintNotFound fingerprint],
             skipped := skipped st + 1\<rparr>)"

definition row_fingerprints :: "row \<Rightarrow> string list" where
  "row_fingerprints r = filter (\<lambda>fp. fp \<noteq> []) (map strip (split CHR '';'' (row_fingerprint r)))"

definition import_row :: "string \<Rightarrow> import_state \<Rightarrow> row \<Rightarrow> import_state" where
  "import_row lang st r =
     (case row_translation r of
        None \<Rightarrow> st
      | Some translated_text \<Rightarrow> foldl (merge_translation lang translated_text) st (row_fingerprints r))"

text \<open>
  The import, from the loaded translation map and the rows of the sheet; \<open>imp_map\<close> of the
  result is the map written to the output file.
\<close>

definition excel_to_translation_map ::
    "string \<Rightarrow> (string \<times> entry) list \<Rightarrow> row list \<Rightarrow> import_state" where
  "excel_to_translation_map lang tm rows =
     (let st = foldl (import_row lang)
                 \<lparr>imp_map = tm, processed = 0, skipped = 0, imp_output = []\<rparr> rows;
          out1 = imp_output st @ [Processed (processed st)];
          out2 = (if skipped st > 0 then out1 @ [Skipped (skipped st)] else out1)
      in st\<lparr>imp_output := out2\<rparr>)"

text \<open>
  The merges a sheet asks for, in the order of the loops: a fingerprint and the translation
  of its row.  A merge is unknown when its fingerprint is not a key of the map.
\<close>

definition row_merges :: "row \<Rightarrow> (string \<times> string) list" where
  "row_merges r =
     (case row_translation r of
        None \<Rightarrow> []
      | Some translated_text \<Rightarrow> map (\<lambda>fp. (fp, translated_text)) (row_fingerprints r))"

definition sheet_merges :: "row list \<Rightarrow> (string \<times> string) list" where
  "sheet_merges rows = concat (map row_merges rows)"

definition unknown :: "(string \<times> entry) list \<Rightarrow> string \<times> string \<Rightarrow> bool" where
  "unknown tm m = (map_of tm (fst m) = None)"

text \<open>The effect of a merge on the map alone: none when the fingerprint is not a key.\<close>

definition set_translation ::
    "string \<Rightarrow> (string \<times> entry) list \<Rightarrow> string \<times> string \<Rightarrow> (string \<times> entry) list" where
  "set_translation lang tm m =
     (case map_of tm (fst m) of
        None \<Rightarrow> tm
      | Some e \<Rightarrow>
          dict_set (fst m)
            (e\<lparr>trans := Some (dict_set lang (snd m) (case trans e of None \<Rightarrow> [] | Some tr \<Rightarrow> tr))\<rparr>)
            tm)"

fun apply_merges :: "string \<Rightarrow> import_state \<Rightarrow> (string \<times> string) list \<Rightarrow> import_state" where
  "apply_merges lang st [] = st"
| "apply_merges lang st (m # ms) = apply_merges lang (merge_translation lang (snd m) st (fst m)) ms"

fun is_warning :: "message \<Rightarrow> bool" where
  "is_warning (FingerprintNotFound fp) = True"
| "is_warning m = False"

section \<open>The path addressing of the specification\<close>

text \<open>
  The specification's path addressor, written from its words, for comparison with
  \<open>walk_set\<close>: a segment that is a non-negative base-10 integer addresses a sequence
  element by index, every other segment addresses a mapping field by key.
\<close>

datatype segment = Index nat | Field string

definition parses_as_index :: "string \<Rightarrow> bool" where
  "parses_as_index seg = (seg \<noteq> [] \<and> list_all is_decimal_char seg)"

definition classify :: "string \<Rightarrow> segment" where
  "classify seg =
     (if parses_as_index seg then Index (foldl (\<lambda>n c. 10 * n + (of_char c - 48)) 0 seg)
      else Field seg)"

fun addr_get :: "json \<Rightarrow> segment \<Rightarrow> json option" where
  "addr_get (JList xs) (Index n) = (if n < length xs then Some (xs ! n) else None)"
| "addr_get (JObj kvs) (Field k) = map_of kvs (KStr k)"
| "addr_get d s = None"

text \<open>The write at the last segment: an element of a sequence, or a field of a mapping.\<close>

fun addr_put :: "json \<Rightarrow> segment \<Rightarrow> json \<Rightarrow> json option" where
  "addr_put (JList xs) (Index n) v = (if n < length xs then Some (JList (xs[n := v])) else None)"
| "addr_put (JObj kvs) (Field k) v = Some (JObj (dict_set (KStr k) v kvs))"
| "addr_put d s v = None"

text \<open>
  What \<^verbatim>\<open>patch_file\<close> does at the last segment: as \<open>addr_put\<close>, and an integer applied
  to a mapping is stored as an integer key of the mapping.
\<close>

fun addr_put_py :: "json \<Rightarrow> segment \<Rightarrow> json \<Rightarrow> json option" where
  "addr_put_py (JObj kvs) (Index n) v = Some (JObj (dict_set (KInt n) v kvs))"
| "addr_put_py d s v = addr_put d s v"

text \<open>
  The walk: descend by \<open>addr_get\<close> through all segments but the last, write at the last
  one with \<open>put\<close>, and leave every other child as it is.
\<close>

fun addr_walk ::
    "(json \<Rightarrow> segment \<Rightarrow> json \<Rightarrow> json option) \<Rightarrow> json \<Rightarrow> segment list \<Rightarrow> segment \<Rightarrow> json
       \<Rightarrow> json option" where
  "addr_walk put d [] l v = put d l v"
| "addr_walk put d (s # ss) l v =
     (case addr_get d s of
        None \<Rightarrow> None
      | Some c \<Rightarrow>
          (case addr_walk put c ss l v of
             None \<Rightarrow> None
           | Some c' \<Rightarrow> addr_put d s c'))"

definition addr_write ::
    "(json \<Rightarrow> segment \<Rightarrow> json \<Rightarrow> json option) \<Rightarrow> json \<Rightarrow> string \<Rightarrow> json \<Rightarrow> json option" where
  "addr_write put d path v =
     (let segs = map classify (split CHR ''.'' path)
      in addr_walk put d (butlast segs) (last segs) v)"

text \<open>\<open>read\<close>: the value a path addresses, \<open>None\<close> when a segment does not exist.\<close>

fun addr_read :: "json \<Rightarrow> segment list \<Rightarrow> json option" where
  "addr_read d [] = Some d"
| "addr_read d (s # ss) = (case addr_get d s of None \<Rightarrow> None | Some c \<Rightarrow> addr_read c ss)"

definition path_segments :: "string \<Rightarrow> segment list" where
  "path_segments path = map classify (split CHR ''.'' path)"

text \<open>
  The document \<^verbatim>\<open>patch_misc_file\<close> is written for: a mapping whose \<^verbatim>\<open>misc_strings\<close>,
  when present, is a sequence of mappings.
\<close>

fun is_obj :: "json \<Rightarrow> bool" where
  "is_obj (JObj kvs) = True"
| "is_obj v = False"

definition misc_items :: "json \<Rightarrow> json list" where
  "misc_items data =
     (case data of
        JObj kvs \<Rightarrow> (case map_of kvs (KStr ''misc_strings'') of Some (JList items) \<Rightarrow> items | other \<Rightarrow> [])
      | other \<Rightarrow> [])"

definition misc_document :: "json \<Rightarrow> bool" where
  "misc_document data =
     (case data of
        JObj kvs \<Rightarrow>
          (case map_of kvs (KStr ''misc_strings'') of
             None \<Rightarrow> True
           | Some (JList items) \<Rightarrow> list_all is_obj items
           | Some other \<Rightarrow> False)
      | other \<Rightarrow> False)"

text \<open>An element of \<^verbatim>\<open>misc_strings\<close> whose \<^verbatim>\<open>"id"\<close> is the given string.\<close>

fun has_id :: "string \<Rightarrow> json \<Rightarrow> bool" where
  "has_id target_id (JObj kvs) = (map_of kvs (KStr ''id'') = Some (JStr target_id))"
| "has_id target_id v = False"

text \<open>The subscript that stands for a segment: an integer for an index, a string for a field.\<close>

fun segment_key :: "segment \<Rightarrow> key" where
  "segment_key (Index n) = KInt n"
| "segment_key (Field k) = KStr k"

text \<open>A segment on which \<^verbatim>\<open>isdigit\<close> holds and \<^verbatim>\<open>int\<close> raises.\<close>

definition int_error :: "string \<Rightarrow> bool" where
  "int_error seg = (isdigit seg \<and> \<not> parses_as_index seg)"

text \<open>A document as \<^verbatim>\<open>json.load\<close> returns it: every key of every dict is a string.\<close>

fun is_str_key :: "key \<Rightarrow> bool" where
  "is_str_key (KStr s) = True"
| "is_str_key (KInt n) = False"

fun str_keyed :: "json \<Rightarrow> bool" where
  "str_keyed (JList xs) = list_all str_keyed xs"
| "str_keyed (JObj kvs) = list_all (\<lambda>(k, v). is_str_key k \<and> str_keyed v) kvs"
| "str_keyed v = True"

section \<open>Facts about the helpers\<close>

lemma dict_set_map_of: "map_of (dict_set k v kvs) = (map_of kvs)(k \<mapsto> v)"
  by (induction kvs) auto

lemma dict_set_idem: "dict_set k v (dict_set k v kvs) = dict_set k v kvs"
  by (induction kvs) auto

lemma dict_set_keys_present:
  "k \<in> set (map fst kvs) \<Longrightarrow> map fst (dict_set k v kvs) = map fst kvs"
  by (induction kvs) force+

lemma length_hex_word: "length (hex_word w) = 8"
  by (simp add: hex_word_def)

lemma length_sha_hex: "length (sha_hex st) = 64"
  by (induction st rule: sha_hex.induct) (simp add: length_hex_word)

lemma length_sha256_hexdigest: "length (sha256_hexdigest m) = 64"
  by (simp add: sha256_hexdigest_def length_sha_hex)

lemma hex_digit_hex: "is_hex_char (hex_digit n)"
  unfolding hex_digit_def is_hex_char_def by (rule nth_mem) simp

lemma hex_word_hex: "list_all is_hex_char (hex_word w)"
  unfolding hex_word_def list_all_iff using hex_digit_hex by auto

lemma sha_hex_hex: "list_all is_hex_char (sha_hex st)"
  by (induction st rule: sha_hex.induct) (simp add: hex_word_hex)

lemma sha256_hexdigest_hex: "list_all is_hex_char (sha256_hexdigest m)"
  by (simp add: sha256_hexdigest_def sha_hex_hex)

lemma list_all_take: "list_all P xs \<Longrightarrow> list_all P (take n xs)"
  by (auto simp: list_all_iff dest: in_set_takeD)

lemma generate_fingerprint_value:
  "generate_fingerprint self t f c e m =
     (take 16 (sha256_hexdigest (utf8_encode (hashed_string t f c e m))), self)"
  by (simp add: generate_fingerprint_def hashed_string_def)

lemma length_fingerprint: "length (fst (generate_fingerprint self t f c e m)) = 16"
  by (simp add: generate_fingerprint_value length_sha256_hexdigest)

subsection \<open>The walk of patch_file and the path addressing\<close>

lemma parses_isdigit: "parses_as_index seg \<Longrightarrow> isdigit seg"
  by (auto simp: parses_as_index_def isdigit_def is_digit_char_def list_all_iff)

lemma py_int_parses:
  "py_int seg =
     (if parses_as_index seg then Inr (foldl (\<lambda>n c. 10 * n + (of_char c - 48)) 0 seg)
      else Inl ValueError)"
  by (simp only: py_int_def parses_as_index_def)

lemma path_component_cases:
  "path_component seg =
     (if int_error seg then Inl ValueError
      else Inr (segment_key (classify seg)))"
proof (cases "isdigit seg")
  case True
  then show ?thesis
    by (cases "parses_as_index seg")
       (simp_all add: path_component_def int_error_def classify_def py_int_parses)
next
  case False
  with parses_isdigit[of seg] have "\<not> parses_as_index seg" by blast
  with False show ?thesis
    by (simp add: path_component_def int_error_def classify_def)
qed

lemma str_keyed_nth: "str_keyed (JList xs) \<Longrightarrow> n < length xs \<Longrightarrow> str_keyed (xs ! n)"
  by (simp add: list_all_length)

lemma str_keyed_map_of: "str_keyed (JObj kvs) \<Longrightarrow> map_of kvs k = Some v \<Longrightarrow> str_keyed v"
  by (auto simp: list_all_iff dest!: map_of_SomeD)

lemma str_keyed_no_int: "str_keyed (JObj kvs) \<Longrightarrow> map_of kvs (KInt n) = None"
proof (rule ccontr)
  assume a: "str_keyed (JObj kvs)" and "map_of kvs (KInt n) \<noteq> None"
  then obtain v where "map_of kvs (KInt n) = Some v" by auto
  then have "(KInt n, v) \<in> set kvs" by (rule map_of_SomeD)
  with a show False by (auto simp: list_all_iff)
qed

lemma walk_set_JStr: "isl (walk_set (JStr s) segs l v)"
proof (induction segs arbitrary: s)
  case Nil
  then show ?case by (cases "path_component l") auto
next
  case (Cons seg segs)
  show ?case
  proof (cases "path_component seg")
    case (Inl e)
    then show ?thesis by simp
  next
    case (Inr k)
    show ?thesis
    proof (cases k)
      case (KStr x)
      with Inr show ?thesis by simp
    next
      case (KInt n)
      show ?thesis
      proof (cases "n < length s")
        case True
        with Inr KInt Cons.IH[of "[s ! n]"] show ?thesis
          by (cases "walk_set (JStr [s ! n]) segs l v") auto
      next
        case False
        with Inr KInt show ?thesis by simp
      qed
    qed
  qed
qed

lemma py_getitem_addr:
  assumes "str_keyed d" "\<And>s. d \<noteq> JStr s"
  shows "py_getitem d (segment_key sg) = Inr c \<longleftrightarrow> addr_get d sg = Some c"
proof (cases d)
  case (JObj kvs)
  with assms(1) str_keyed_no_int[of kvs] show ?thesis
    by (cases sg) (auto split: option.splits)
next
  case (JStr s)
  with assms(2)[of s] show ?thesis by blast
qed (cases sg; simp)+

lemma addr_put_store_child:
  "addr_get d sg = Some c \<Longrightarrow> addr_put d sg c' = Some (store_child d (segment_key sg) c')"
  by (cases d; cases sg) (auto split: if_splits)

lemma py_setitem_addr:
  "py_setitem d (segment_key sg) v = Inr d' \<longleftrightarrow> addr_put_py d sg v = Some d'"
  by (cases d; cases sg) auto

lemma addr_get_str_keyed:
  assumes "str_keyed d" "addr_get d sg = Some c"
  shows "str_keyed c"
proof (cases d)
  case (JList xs)
  with assms str_keyed_nth[of xs] show ?thesis
    by (cases sg) (auto split: if_splits)
next
  case (JObj kvs)
  with assms str_keyed_map_of[of kvs] show ?thesis
    by (cases sg) auto
qed (use assms in simp_all)

lemma addr_get_JStr: "addr_get (JStr s) sg = None"
  by (cases sg) simp_all

lemma walk_set_addr_walk:
  "str_keyed d \<Longrightarrow>
   walk_set d segs l v = Inr d' \<longleftrightarrow>
     (list_all (\<lambda>s. \<not> int_error s) (segs @ [l])
      \<and> addr_walk addr_put_py d (map classify segs) (classify l) v = Some d')"
proof (induction segs arbitrary: d d')
  case Nil
  then show ?case
    by (simp add: path_component_cases py_setitem_addr)
next
  case (Cons seg segs)
  show ?case
  proof (cases "int_error seg")
    case True
    then show ?thesis by (simp add: path_component_cases)
  next
    case noerr: False
    show ?thesis
    proof (cases "\<exists>s. d = JStr s")
      case True
      then obtain s where d: "d = JStr s" by blast
      have "isl (walk_set (JStr s) (seg # segs) l v)" by (rule walk_set_JStr)
      then have "walk_set d (seg # segs) l v \<noteq> Inr d'" using d by auto
      then show ?thesis using d by (simp add: addr_get_JStr)
    next
      case False
      then have nstr: "\<And>s. d \<noteq> JStr s" by blast
      show ?thesis
      proof (cases "addr_get d (classify seg)")
        case None
        have "\<And>c. py_getitem d (segment_key (classify seg)) \<noteq> Inr c"
          using py_getitem_addr[OF Cons.prems nstr, of "classify seg"] None by simp
        then show ?thesis using None noerr
          by (auto simp: path_component_cases split: sum.splits)
      next
        case (Some c)
        have g: "py_getitem d (segment_key (classify seg)) = Inr c"
          using py_getitem_addr[OF Cons.prems nstr, of "classify seg" c] Some by simp
        have kc: "str_keyed c" using addr_get_str_keyed[OF Cons.prems Some] .
        have w: "walk_set d (seg # segs) l v =
            (case walk_set c segs l v of
               Inl e \<Rightarrow> Inl e
             | Inr c' \<Rightarrow> Inr (store_child d (segment_key (classify seg)) c'))"
          using g noerr by (simp add: path_component_cases)
        have a: "addr_walk addr_put_py d (map classify (seg # segs)) (classify l) v =
            (case addr_walk addr_put_py c (map classify segs) (classify l) v of
               None \<Rightarrow> None
             | Some c' \<Rightarrow> Some (store_child d (segment_key (classify seg)) c'))"
          using Some addr_put_store_child[OF Some] by (simp split: option.splits)
        have ok: "list_all (\<lambda>s. \<not> int_error s) ((seg # segs) @ [l])
            \<longleftrightarrow> list_all (\<lambda>s. \<not> int_error s) (segs @ [l])"
          using noerr by simp
        show ?thesis
        proof (cases "walk_set c segs l v")
          case (Inl e)
          with Cons.IH[OF kc] have "\<And>c'. \<not> (list_all (\<lambda>s. \<not> int_error s) (segs @ [l])
              \<and> addr_walk addr_put_py c (map classify segs) (classify l) v = Some c')"
            by simp
          then show ?thesis unfolding w a ok using Inl
            by (auto split: option.splits)
        next
          case (Inr c')
          with Cons.IH[OF kc, of c'] have "list_all (\<lambda>s. \<not> int_error s) (segs @ [l])"
            and "addr_walk addr_put_py c (map classify segs) (classify l) v = Some c'"
            by simp_all
          then show ?thesis unfolding w a ok using Inr by auto
        qed
      qed
    qed
  qed
qed

text \<open>A JSON text, whose keys are strings, loads as a document whose keys are strings.\<close>

lemma dict_set_str_keyed:
  "list_all (\<lambda>(k, v). is_str_key k \<and> str_keyed v) d \<Longrightarrow> is_str_key k \<Longrightarrow> str_keyed v \<Longrightarrow>
     list_all (\<lambda>(k, v). is_str_key k \<and> str_keyed v) (dict_set k v d)"
  by (induction d) auto

lemma foldl_dict_set_str_keyed:
  "list_all (\<lambda>(k, v). is_str_key k \<and> str_keyed v) d \<Longrightarrow>
   list_all (\<lambda>(k, v). is_str_key k \<and> str_keyed v) kvs \<Longrightarrow>
     list_all (\<lambda>(k, v). is_str_key k \<and> str_keyed v) (foldl (\<lambda>d (k, v). dict_set k v d) d kvs)"
  by (induction kvs arbitrary: d) (auto simp: dict_set_str_keyed)

lemma json_load_str_keyed: "str_keyed doc \<Longrightarrow> str_keyed (json_load doc)"
proof (induction doc rule: json_load.induct)
  case (1 xs)
  then show ?case by (auto simp: list_all_iff)
next
  case (2 kvs)
  have "list_all (\<lambda>(k, v). is_str_key k \<and> str_keyed v) (map (\<lambda>(k, v). (k, json_load v)) kvs)"
    using 2 by (fastforce simp: list_all_iff)
  then show ?case using foldl_dict_set_str_keyed[of "[]"] by simp
qed simp_all

lemma split_nonempty: "split sep s \<noteq> []"
  by (induction s) (auto split: list.splits)

lemma apply_patch_addr_write:
  assumes "str_keyed d"
  shows "apply_patch d p t = Inr d' \<longleftrightarrow>
     (list_all (\<lambda>s. \<not> int_error s) (split CHR ''.'' p)
      \<and> addr_write addr_put_py d p (JStr t) = Some d')"
proof -
  let ?segs = "split CHR ''.'' p"
  have ne: "?segs \<noteq> []" by (rule split_nonempty)
  then have eq: "butlast ?segs @ [last ?segs] = ?segs" by simp
  show ?thesis
    using walk_set_addr_walk[OF assms, of "butlast ?segs" "last ?segs" "JStr t" d'] ne
    by (simp add: apply_patch_def addr_write_def Let_def eq map_butlast last_map)
qed

lemma addr_walk_parent:
  "addr_walk put d ss l v \<noteq> None \<longleftrightarrow>
     (\<exists>parent. addr_read d ss = Some parent \<and> put parent l v \<noteq> None)"
proof (induction ss arbitrary: d)
  case Nil
  then show ?case by simp
next
  case (Cons s ss)
  show ?case
  proof (cases "addr_get d s")
    case None
    then show ?thesis by simp
  next
    case (Some c)
    with Cons.IH[of c] addr_put_store_child[OF Some] show ?thesis
      by (auto split: option.splits)
  qed
qed

lemma apply_patch_fails_iff:
  assumes "str_keyed d"
  shows "isl (apply_patch d p t) \<longleftrightarrow>
     \<not> (list_all (\<lambda>s. \<not> int_error s) (split CHR ''.'' p)
        \<and> (\<exists>parent. addr_read d (butlast (path_segments p)) = Some parent
               \<and> addr_put_py parent (last (path_segments p)) (JStr t) \<noteq> None))"
proof -
  have a: "isl (apply_patch d p t) \<longleftrightarrow> \<not> (\<exists>d'. apply_patch d p t = Inr d')"
    by (cases "apply_patch d p t") auto
  have b: "(\<exists>d'. apply_patch d p t = Inr d') \<longleftrightarrow>
      (list_all (\<lambda>s. \<not> int_error s) (split CHR ''.'' p)
       \<and> addr_write addr_put_py d p (JStr t) \<noteq> None)"
    using apply_patch_addr_write[OF assms, of p t] by auto
  have c: "addr_write addr_put_py d p (JStr t) \<noteq> None \<longleftrightarrow>
      (\<exists>parent. addr_read d (butlast (path_segments p)) = Some parent
               \<and> addr_put_py parent (last (path_segments p)) (JStr t) \<noteq> None)"
    using addr_walk_parent[of addr_put_py d "butlast (path_segments p)"
        "last (path_segments p)" "JStr t"]
    by (simp only: addr_write_def path_segments_def Let_def)
  show ?thesis unfolding a b c ..
qed

lemma addr_get_after_put:
  "addr_get d s = Some c \<Longrightarrow> addr_put d s c' = Some d' \<Longrightarrow> addr_get d' s = Some c'"
  by (cases d; cases s) (auto simp: dict_set_map_of split: if_splits)

lemma addr_walk_written:
  "addr_walk put d ss l v = Some d' \<Longrightarrow> addr_read d ss = Some parent \<Longrightarrow>
     \<exists>p'. put parent l v = Some p' \<and> addr_read d' ss = Some p'"
proof (induction ss arbitrary: d d')
  case Nil
  then show ?case by simp
next
  case (Cons s ss)
  from Cons.prems(2) obtain c where g: "addr_get d s = Some c" and r: "addr_read c ss = Some parent"
    by (auto split: option.splits)
  from Cons.prems(1) g obtain c' where w: "addr_walk put c ss l v = Some c'"
    and p: "addr_put d s c' = Some d'"
    by (auto split: option.splits)
  from Cons.IH[OF w r] obtain p' where p': "put parent l v = Some p'" "addr_read c' ss = Some p'"
    by blast
  have "addr_get d' s = Some c'" by (rule addr_get_after_put[OF g p])
  with p' show ?case by simp
qed

lemma apply_patch_on_mapping:
  assumes k: "str_keyed data"
    and ok: "list_all (\<lambda>s. \<not> int_error s) (split CHR ''.'' path)"
    and parent: "addr_read data (butlast (path_segments path)) = Some (JObj kvs)"
  shows "\<exists>data'. apply_patch data path new_text = Inr data'
      \<and> addr_write addr_put_py data path (JStr new_text) = Some data'
      \<and> addr_read data' (butlast (path_segments path))
          = Some (JObj (dict_set (segment_key (last (path_segments path))) (JStr new_text) kvs))"
proof -
  let ?ss = "butlast (path_segments path)" and ?l = "last (path_segments path)"
  have put: "addr_put_py (JObj kvs) ?l (JStr new_text)
      = Some (JObj (dict_set (segment_key ?l) (JStr new_text) kvs))"
    by (cases ?l) simp_all
  with parent have "addr_walk addr_put_py data ?ss ?l (JStr new_text) \<noteq> None"
    using addr_walk_parent[of addr_put_py data ?ss ?l "JStr new_text"] by simp
  then obtain data' where w: "addr_walk addr_put_py data ?ss ?l (JStr new_text) = Some data'"
    by auto
  then have aw: "addr_write addr_put_py data path (JStr new_text) = Some data'"
    by (simp add: addr_write_def path_segments_def Let_def)
  with ok have a: "apply_patch data path new_text = Inr data'"
    using apply_patch_addr_write[OF k, of path new_text data'] by simp
  from addr_walk_written[OF w parent] put
  have "addr_read data' ?ss = Some (JObj (dict_set (segment_key ?l) (JStr new_text) kvs))"
    by auto
  with a aw show ?thesis by blast
qed

lemma apply_patch_int_error:
  assumes "str_keyed data" "list_ex int_error (split CHR ''.'' path)"
  shows "isl (apply_patch data path new_text)"
proof -
  from assms(2) have "\<not> list_all (\<lambda>s. \<not> int_error s) (split CHR ''.'' path)"
    by (auto simp: list_all_iff list_ex_iff)
  then show ?thesis using apply_patch_fails_iff[OF assms(1), of path new_text] by simp
qed

lemma addr_put_py_extends: "addr_put d s v = Some x \<Longrightarrow> addr_put_py d s v = Some x"
  by (cases d; cases s) auto

lemma addr_walk_py_extends:
  "addr_walk addr_put d ss l v = Some x \<Longrightarrow> addr_walk addr_put_py d ss l v = Some x"
proof (induction ss arbitrary: d x)
  case Nil
  then show ?case by (simp add: addr_put_py_extends)
next
  case (Cons s ss)
  then show ?case by (auto split: option.splits)
qed

lemma apply_patches_append:
  "apply_patches d (ps @ qs) =
     (case apply_patches d ps of Inl e \<Rightarrow> Inl e | Inr d' \<Rightarrow> apply_patches d' qs)"
  by (induction ps arbitrary: d) (auto split: sum.splits)

subsection \<open>The patch run and the misc file\<close>

lemma patch_file_error_keeps: "patch_file fs f ps = (fs', Some e) \<Longrightarrow> fs' = fs"
  by (auto simp: patch_file_def split: option.splits sum.splits)

lemma patch_misc_file_error_keeps: "patch_misc_file fs f ps = (fs', Some e) \<Longrightarrow> fs' = fs"
  by (auto simp: patch_misc_file_def split: option.splits sum.splits)

lemma patch_target_error_keeps: "patch_target fs f ps = (fs', Some e) \<Longrightarrow> fs' = fs"
  by (auto simp: patch_target_def patch_file_error_keeps patch_misc_file_error_keeps
      split: if_splits)

lemma patch_files_append:
  "patch_files fs out (xs @ ys) =
     (case patch_files fs out xs of
        (fs', out', None) \<Rightarrow> patch_files fs' out' ys
      | (fs', out', Some e) \<Rightarrow> (fs', out', Some e))"
proof (induction xs arbitrary: fs out)
  case Nil
  then show ?case by simp
next
  case (Cons x xs)
  obtain f ps where x: "x = (f, ps)" by (cases x)
  obtain fs' r where t: "patch_target fs f ps = (fs', r)" by (cases "patch_target fs f ps")
  show ?case using Cons.IH[of fs' "out @ [Patching f]"] x t
    by (cases r) simp_all
qed

lemma exit_status_zero: "exit_status (main_patch self fs) = 0"
  by (simp add: main_patch_def split: prod.splits option.splits)

lemma patch_items_wf:
  "list_all is_obj items \<Longrightarrow>
     \<exists>items'. patch_items items target t = Inr items' \<and> list_all is_obj items'"
proof (induction items)
  case Nil
  then show ?case by simp
next
  case (Cons item items)
  then obtain kvs where item: "item = JObj kvs" by (cases item) auto
  from Cons obtain items' where "patch_items items target t = Inr items'" "list_all is_obj items'"
    by auto
  with item Cons.prems show ?case by auto
qed

lemma patch_items_unmatched:
  "list_all is_obj items \<Longrightarrow> \<not> list_ex (has_id target) items \<Longrightarrow>
     patch_items items target t = Inr items"
proof (induction items)
  case Nil
  then show ?case by simp
next
  case (Cons item items)
  then obtain kvs where item: "item = JObj kvs" by (cases item) auto
  with Cons show ?case by auto
qed

lemma patch_items_first:
  "list_all is_obj pre \<Longrightarrow> \<not> list_ex (has_id target) pre \<Longrightarrow> has_id target (JObj kvs) \<Longrightarrow>
     patch_items (pre @ JObj kvs # post) target t
       = Inr (pre @ JObj (dict_set (KStr ''text'') (JStr t) kvs) # post)"
proof (induction pre)
  case Nil
  then show ?case by simp
next
  case (Cons item pre)
  then obtain kvs' where item: "item = JObj kvs'" by (cases item) auto
  with Cons show ?case by auto
qed

lemma patch_misc_one_wf:
  assumes "misc_document data"
  shows "\<exists>data'. patch_misc_one data path t = Inr data' \<and> misc_document data'"
proof (cases "startswith path ''misc.''")
  case False
  with assms show ?thesis by (simp add: patch_misc_one_def)
next
  case True
  from assms obtain kvs where d: "data = JObj kvs"
    by (cases data) (auto simp: misc_document_def)
  show ?thesis
  proof (cases "map_of kvs (KStr ''misc_strings'')")
    case None
    with True d assms show ?thesis by (simp add: patch_misc_one_def)
  next
    case (Some v)
    with assms d obtain items where v: "v = JList items" and wf: "list_all is_obj items"
      by (cases v) (auto simp: misc_document_def)
    from patch_items_wf[OF wf, of "drop 5 path" t] obtain items'
      where "patch_items items (drop 5 path) t = Inr items'" "list_all is_obj items'" by blast
    with True d Some v show ?thesis
      by (simp add: patch_misc_one_def misc_document_def dict_set_map_of)
  qed
qed

lemma patch_misc_all_wf:
  "misc_document data \<Longrightarrow>
     \<exists>data'. patch_misc_all data patches = Inr data' \<and> misc_document data'"
proof (induction patches arbitrary: data)
  case Nil
  then show ?case by simp
next
  case (Cons p patches)
  obtain path t where p: "p = (path, t)" by (cases p)
  from patch_misc_one_wf[OF Cons.prems, of path t] obtain d1
    where d1: "patch_misc_one data path t = Inr d1" "misc_document d1" by blast
  from Cons.IH[OF d1(2)] d1(1) p show ?case by simp
qed


lemma dict_set_same: "map_of kvs k = Some v \<Longrightarrow> dict_set k v kvs = kvs"
  by (induction kvs) (auto split: if_splits)

lemma patch_misc_one_unmatched:
  assumes "misc_document data"
    and "\<not> startswith path ''misc.'' \<or> \<not> list_ex (has_id (drop 5 path)) (misc_items data)"
  shows "patch_misc_one data path t = Inr data"
proof (cases "startswith path ''misc.''")
  case False
  then show ?thesis by (simp add: patch_misc_one_def)
next
  case True
  with assms(2) have un: "\<not> list_ex (has_id (drop 5 path)) (misc_items data)" by blast
  from assms(1) obtain kvs where d: "data = JObj kvs"
    by (cases data) (auto simp: misc_document_def)
  show ?thesis
  proof (cases "map_of kvs (KStr ''misc_strings'')")
    case None
    with True d show ?thesis by (simp add: patch_misc_one_def)
  next
    case (Some v)
    with assms(1) d obtain items where v: "v = JList items" and wf: "list_all is_obj items"
      by (cases v) (auto simp: misc_document_def)
    have "misc_items data = items" using d Some v by (simp add: misc_items_def)
    with un have "patch_items items (drop 5 path) t = Inr items"
      using patch_items_unmatched[OF wf] by simp
    with True d Some v show ?thesis
      by (simp add: patch_misc_one_def dict_set_same)
  qed
qed

lemma patch_misc_all_unmatched:
  assumes "misc_document data"
    and "list_all (\<lambda>p. \<not> startswith (fst p) ''misc.''
            \<or> \<not> list_ex (has_id (drop 5 (fst p))) (misc_items data)) patches"
  shows "patch_misc_all data patches = Inr data"
  using assms(2)
proof (induction patches)
  case Nil
  then show ?case by simp
next
  case (Cons p patches)
  obtain path t where p: "p = (path, t)" by (cases p)
  with Cons.prems have "patch_misc_one data path t = Inr data"
    using patch_misc_one_unmatched[OF assms(1), of path t] by simp
  with Cons p show ?case by simp
qed

lemma patch_misc_one_first:
  assumes "misc_document data" "startswith path ''misc.''"
    and "misc_items data = pre @ JObj kvs # post"
    and "has_id (drop 5 path) (JObj kvs)" "\<not> list_ex (has_id (drop 5 path)) pre"
  shows "\<exists>data'. patch_misc_one data path t = Inr data'
      \<and> misc_items data' = pre @ JObj (dict_set (KStr ''text'') (JStr t) kvs) # post"
proof -
  from assms(1) obtain kvs0 where d: "data = JObj kvs0"
    by (cases data) (auto simp: misc_document_def)
  from assms(3) d obtain v where Some: "map_of kvs0 (KStr ''misc_strings'') = Some v"
    by (cases "map_of kvs0 (KStr ''misc_strings'')") (auto simp: misc_items_def)
  with assms(1) d obtain items where v: "v = JList items" and wf: "list_all is_obj items"
    by (cases v) (auto simp: misc_document_def)
  have items: "items = pre @ JObj kvs # post"
    using assms(3) d Some v by (simp add: misc_items_def)
  with wf have "list_all is_obj pre" by simp
  from patch_items_first[OF this assms(5) assms(4), of post t] items
  have "patch_items items (drop 5 path) t
      = Inr (pre @ JObj (dict_set (KStr ''text'') (JStr t) kvs) # post)" by simp
  with assms(2) d Some v show ?thesis
    by (simp add: patch_misc_one_def misc_items_def dict_set_map_of)
qed

lemma patch_misc_one_first_exact:
  assumes "misc_document data" "startswith path ''misc.''" "data = JObj kvs0"
    and "misc_items data = pre @ JObj kvs # post"
    and "has_id (drop 5 path) (JObj kvs)" "\<not> list_ex (has_id (drop 5 path)) pre"
  shows "patch_misc_one data path t
      = Inr (JObj (dict_set (KStr ''misc_strings'')
                     (JList (pre @ JObj (dict_set (KStr ''text'') (JStr t) kvs) # post)) kvs0))"
proof -
  from assms(3,4) obtain v where Some: "map_of kvs0 (KStr ''misc_strings'') = Some v"
    by (cases "map_of kvs0 (KStr ''misc_strings'')") (auto simp: misc_items_def)
  with assms(1,3) obtain items where v: "v = JList items" and wf: "list_all is_obj items"
    by (cases v) (auto simp: misc_document_def)
  have items: "items = pre @ JObj kvs # post"
    using assms(3,4) Some v by (simp add: misc_items_def)
  with wf have "list_all is_obj pre" by simp
  from patch_items_first[OF this assms(6) assms(5), of post t] items
  have "patch_items items (drop 5 path) t
      = Inr (pre @ JObj (dict_set (KStr ''text'') (JStr t) kvs) # post)" by simp
  with assms(2,3) Some v show ?thesis
    by (simp add: patch_misc_one_def)
qed

subsection \<open>The import\<close>

lemma apply_merges_append:
  "apply_merges lang st (xs @ ys) = apply_merges lang (apply_merges lang st xs) ys"
  by (induction xs arbitrary: st) auto

lemma foldl_merge_translation:
  "foldl (merge_translation lang t) st fps = apply_merges lang st (map (\<lambda>fp. (fp, t)) fps)"
  by (induction fps arbitrary: st) auto

lemma import_row_merges: "import_row lang st r = apply_merges lang st (row_merges r)"
  by (simp add: import_row_def row_merges_def foldl_merge_translation split: option.splits)

lemma import_rows_merges:
  "foldl (import_row lang) st rows = apply_merges lang st (sheet_merges rows)"
  by (induction rows arbitrary: st)
     (simp_all add: sheet_merges_def import_row_merges apply_merges_append)

lemma map_of_None_keys: "map_of tm k = None \<longleftrightarrow> k \<notin> set (dict_keys tm)"
  by (simp add: dict_keys_def map_of_eq_None_iff)

lemma merge_translation_unknown:
  "map_of (imp_map st) fp = None \<Longrightarrow>
     merge_translation lang t st fp
       = st\<lparr>imp_output := imp_output st @ [FingerprintNotFound fp], skipped := skipped st + 1\<rparr>"
  by (simp add: merge_translation_def)

lemma merge_translation_known:
  "map_of (imp_map st) fp = Some e \<Longrightarrow>
     merge_translation lang t st fp
       = st\<lparr>imp_map := set_translation lang (imp_map st) (fp, t), processed := processed st + 1\<rparr>"
  by (simp add: merge_translation_def set_translation_def)

lemma set_translation_keys: "dict_keys (set_translation lang tm m) = dict_keys tm"
proof (cases "map_of tm (fst m)")
  case None
  then show ?thesis by (simp add: set_translation_def)
next
  case (Some e)
  then have "fst m \<in> set (map fst tm)"
    using map_of_None_keys[of tm "fst m"] by (simp add: dict_keys_def)
  with Some show ?thesis
    by (simp add: set_translation_def dict_keys_def dict_set_keys_present)
qed

lemma merge_translation_keys:
  "dict_keys (imp_map (merge_translation lang t st fp)) = dict_keys (imp_map st)"
proof (cases "map_of (imp_map st) fp")
  case None
  then show ?thesis by (simp add: merge_translation_unknown)
next
  case (Some e)
  then show ?thesis
    using set_translation_keys[of lang "imp_map st" "(fp, t)"]
    by (simp add: merge_translation_known)
qed

lemma apply_merges_keys:
  "dict_keys (imp_map (apply_merges lang st ms)) = dict_keys (imp_map st)"
  by (induction ms arbitrary: st) (simp_all add: merge_translation_keys)

lemma apply_merges_effect:
  "dict_keys (imp_map st) = dict_keys tm \<Longrightarrow>
     skipped (apply_merges lang st ms) = skipped st + length (filter (unknown tm) ms)
     \<and> processed (apply_merges lang st ms)
         = processed st + length (filter (\<lambda>m. \<not> unknown tm m) ms)
     \<and> imp_output (apply_merges lang st ms)
         = imp_output st @ map (\<lambda>m. FingerprintNotFound (fst m)) (filter (unknown tm) ms)
     \<and> imp_map (apply_merges lang st ms)
         = foldl (set_translation lang) (imp_map st) (filter (\<lambda>m. \<not> unknown tm m) ms)"
proof (induction ms arbitrary: st)
  case Nil
  then show ?case by simp
next
  case (Cons m ms)
  have same: "map_of (imp_map st) (fst m) = None \<longleftrightarrow> unknown tm m"
    using Cons.prems by (simp add: unknown_def map_of_None_keys)
  show ?case
  proof (cases "unknown tm m")
    case True
    with same have n: "map_of (imp_map st) (fst m) = None" by simp
    let ?st = "st\<lparr>imp_output := imp_output st @ [FingerprintNotFound (fst m)],
                  skipped := skipped st + 1\<rparr>"
    have step: "merge_translation lang (snd m) st (fst m) = ?st"
      by (rule merge_translation_unknown[OF n])
    have "dict_keys (imp_map ?st) = dict_keys tm" using Cons.prems by simp
    from Cons.IH[OF this] True step show ?thesis by simp
  next
    case False
    with same obtain e where s: "map_of (imp_map st) (fst m) = Some e" by auto
    let ?st = "st\<lparr>imp_map := set_translation lang (imp_map st) (fst m, snd m),
                  processed := processed st + 1\<rparr>"
    have step: "merge_translation lang (snd m) st (fst m) = ?st"
      by (rule merge_translation_known[OF s])
    have "dict_keys (imp_map ?st) = dict_keys tm"
      using Cons.prems by (simp add: set_translation_keys)
    from Cons.IH[OF this] False step show ?thesis by simp
  qed
qed


lemma filter_warnings:
  "filter is_warning (map (\<lambda>m. FingerprintNotFound (fst m)) xs)
     = map (\<lambda>m. FingerprintNotFound (fst m)) xs"
  by (induction xs) auto

subsection \<open>Fingerprints in the sheet, and path components\<close>

lemma hex_not_semicolon: "is_hex_char c \<Longrightarrow> c \<noteq> CHR '';''"
  by (auto simp: is_hex_char_def)

lemma hex_not_space: "is_hex_char c \<Longrightarrow> \<not> is_space c"
  by (auto simp: is_hex_char_def is_space_def)

lemma split_no_separator: "sep \<notin> set s \<Longrightarrow> split sep s = [s]"
  by (induction s) auto

lemma strip_no_space:
  assumes "list_all (\<lambda>c. \<not> is_space c) s"
  shows "strip s = s"
proof -
  have d: "dropWhile is_space xs = xs" if "list_all (\<lambda>c. \<not> is_space c) xs" for xs
    using that by (cases xs) auto
  have "list_all (\<lambda>c. \<not> is_space c) (rev s)" using assms by (simp add: list_all_iff)
  then show ?thesis using assms by (simp add: strip_def d)
qed

lemma row_fingerprints_hex:
  assumes "list_all is_hex_char fp" "fp \<noteq> []"
  shows "row_fingerprints \<lparr>row_fingerprint = fp, row_translation = t\<rparr> = [fp]"
proof -
  have "CHR '';'' \<notin> set fp" using assms(1) hex_not_semicolon by (auto simp: list_all_iff)
  then have s: "split CHR '';'' fp = [fp]" by (rule split_no_separator)
  have "list_all (\<lambda>c. \<not> is_space c) fp" using assms(1) hex_not_space by (auto simp: list_all_iff)
  then have "strip fp = fp" by (rule strip_no_space)
  with s assms(2) show ?thesis by (simp add: row_fingerprints_def)
qed

lemma fingerprint_hex:
  "list_all is_hex_char (fst (generate_fingerprint self t f c e m))"
  "fst (generate_fingerprint self t f c e m) \<noteq> []"
  using length_fingerprint[of self t f c e m]
  by (auto simp: generate_fingerprint_value list_all_take sha256_hexdigest_hex)

lemma path_component_examples:
  "path_component ''001'' = Inr (KInt 1)"
  "path_component ''0'' = Inr (KInt 0)"
  "path_component ''1'' = Inr (KInt 1)"
  "path_component ''displayName'' = Inr (KStr ''displayName'')"
  "path_component ''events'' = Inr (KStr ''events'')"
  "path_component ''pages'' = Inr (KStr ''pages'')"
  "path_component ''list'' = Inr (KStr ''list'')"
  "path_component ''parameters'' = Inr (KStr ''parameters'')"
  by (simp_all add: path_component_def isdigit_def is_digit_char_def is_decimal_char_def py_int_def)

subsection \<open>A test vector of SHA-256\<close>

lemma sha256_abc:
  "sha256_hexdigest (utf8_encode ''abc'')
     = ''ba7816bf8f01cfea414140de5dae2223b00361a396177a9cb410ff61f20015ad''"
  by code_simp

section \<open>Fingerprints\<close>

text \<open>
  Claim C2.  Two calls of \<^verbatim>\<open>generate_fingerprint\<close> with the same five arguments, the second
  on the processor the first one leaves behind, return the same value; the value has 16
  characters, all of them lower-case hexadecimal digits; the processor is the same after
  each call as before, and the value does not depend on the processor the method is called
  on.
\<close>

theorem generate_fingerprint_deterministic:
  "(case generate_fingerprint self t f c e m of
      (v1, self1) \<Rightarrow>
        (case generate_fingerprint self1 t f c e m of
           (v2, self2) \<Rightarrow>
             v1 = v2 \<and> self1 = self \<and> self2 = self \<and> length v1 = 16
             \<and> list_all is_hex_char v1
             \<and> v1 = fst (generate_fingerprint other t f c e m)))"
  by (simp add: generate_fingerprint_value length_sha256_hexdigest list_all_take
        sha256_hexdigest_hex)

text \<open>
  Claim C3, as stated, fails: \<^verbatim>\<open>str(None)\<close> is the text \<^verbatim>\<open>None\<close>, so an absent
  \<^verbatim>\<open>event_id\<close> and the string \<^verbatim>\<open>"None"\<close> give the same fingerprint.
\<close>

theorem fingerprint_none_collides:
  "\<not> (fst (generate_fingerprint processor_init ''Hello'' ''data/Items.json'' ''1.name'' None None)
      \<noteq> fst (generate_fingerprint processor_init ''Hello'' ''data/Items.json'' ''1.name''
              (Some ''None'') None))"
  by (simp add: generate_fingerprint_value hashed_string_def)

text \<open>
  Claim C3, amended.  The fingerprint computed with \<^verbatim>\<open>event_id\<close> absent equals the one
  computed with \<^verbatim>\<open>event_id\<close> equal to the string \<^verbatim>\<open>"None"\<close>, and likewise for
  \<^verbatim>\<open>map_id\<close>; the string \<^verbatim>\<open>"None"\<close> is the only value of the identifier for which the
  hashed string is that of the absent identifier.
\<close>

theorem fingerprint_absent_is_None_text:
  "fst (generate_fingerprint self t f c None m) = fst (generate_fingerprint self t f c (Some ''None'') m)
   \<and> fst (generate_fingerprint self t f c e None) = fst (generate_fingerprint self t f c e (Some ''None''))
   \<and> (hashed_string t f c None m = hashed_string t f c (Some ev) m \<longleftrightarrow> ev = ''None'')
   \<and> (hashed_string t f c e None = hashed_string t f c e (Some mp) \<longleftrightarrow> mp = ''None'')"
  by (auto simp: generate_fingerprint_value hashed_string_def)

theorem fingerprint_absent_is_None_text_witness:
  "fst (generate_fingerprint processor_init ''Hello'' ''data/Items.json'' ''1.name'' None None)
     = fst (generate_fingerprint processor_init ''Hello'' ''data/Items.json'' ''1.name''
              (Some ''None'') None)
   \<and> hashed_string ''Hello'' ''data/Items.json'' ''1.name'' None None
       \<noteq> hashed_string ''Hello'' ''data/Items.json'' ''1.name'' (Some ''0'') None"
  using fingerprint_absent_is_None_text[where self = processor_init and t = "''Hello''"
      and f = "''data/Items.json''" and c = "''1.name''" and m = None and e = None
      and ev = "''0''" and mp = "''0''"]
  by simp

section \<open>Recording\<close>

text \<open>
  Claim C7.  Calling \<^verbatim>\<open>process_string\<close> twice with the same five arguments leaves the
  processor (the translation map with the order of its keys, and the set of processed
  strings) as one call leaves it.  A call changes the entry of no other key, stores the new
  entry under the fingerprint, and if the fingerprint is already a key, the keys and their
  order stay as they are.
\<close>

theorem process_string_idempotent:
  "process_string (process_string self t f c e m) t f c e m = process_string self t f c e m
   \<and> (\<forall>k. k \<noteq> fst (generate_fingerprint self t f c e m) \<longrightarrow>
          dict_get (translation_map (process_string self t f c e m)) k
            = dict_get (translation_map self) k)
   \<and> dict_get (translation_map (process_string self t f c e m))
          (fst (generate_fingerprint self t f c e m))
        = Some \<lparr>original = t,
                 ctx = \<lparr>ctx_file = f, ctx_path = c, ctx_event_id = e, ctx_map_id = m\<rparr>,
                 trans = None\<rparr>
   \<and> (fst (generate_fingerprint self t f c e m) \<in> set (dict_keys (translation_map self)) \<longrightarrow>
          dict_keys (translation_map (process_string self t f c e m))
            = dict_keys (translation_map self))"
  by (simp add: process_string_def generate_fingerprint_value dict_set_idem dict_get_def
        dict_set_map_of dict_keys_def dict_set_keys_present)

theorem process_string_idempotent_witness:
  "(let p = process_string processor_init ''Hello'' ''data/Items.json'' ''1.name'' None None;
        q = process_string p ''Hello'' ''data/Items.json'' ''1.name'' None None
    in q = p \<and> dict_keys (translation_map q) = dict_keys (translation_map p)
       \<and> length (translation_map p) = 1
       \<and> dict_get (translation_map q) [] = dict_get (translation_map p) [])"
proof -
  let ?p = "process_string processor_init ''Hello'' ''data/Items.json'' ''1.name'' None None"
  have present: "fst (generate_fingerprint ?p ''Hello'' ''data/Items.json'' ''1.name'' None None)
      \<in> set (dict_keys (translation_map ?p))"
    by (simp add: process_string_def generate_fingerprint_value processor_init_def dict_keys_def)
  have other: "[] \<noteq> fst (generate_fingerprint ?p ''Hello'' ''data/Items.json'' ''1.name'' None None)"
    using length_fingerprint[of ?p "''Hello''" "''data/Items.json''" "''1.name''" None None]
    by auto
  have len: "length (translation_map ?p) = 1"
    by (simp add: process_string_def generate_fingerprint_value processor_init_def)
  show ?thesis
    using process_string_idempotent[of processor_init "''Hello''" "''data/Items.json''"
        "''1.name''" None None]
      process_string_idempotent[of ?p "''Hello''" "''data/Items.json''" "''1.name''" None None]
      present other len
    by (simp add: Let_def)
qed

lemma keyed_dict_set:
  "keyed_by_fingerprint tm \<Longrightarrow> k = entry_fingerprint e \<Longrightarrow> keyed_by_fingerprint (dict_set k e tm)"
  by (induction tm) (auto simp: keyed_by_fingerprint_def)

lemma keyed_process_string:
  "keyed_by_fingerprint (translation_map self) \<Longrightarrow>
   keyed_by_fingerprint (translation_map (process_string self t f c e m))"
  by (simp add: process_string_def generate_fingerprint_value keyed_dict_set entry_fingerprint_def)

lemma keyed_process_calls:
  "keyed_by_fingerprint (translation_map self) \<Longrightarrow>
   keyed_by_fingerprint (translation_map (process_calls self cs))"
  unfolding process_calls_def
proof (induction cs arbitrary: self)
  case Nil
  then show ?case by simp
next
  case (Cons a cs)
  have "keyed_by_fingerprint (translation_map (process_call self a))"
    using Cons.prems by (cases a) (simp add: keyed_process_string)
  from Cons.IH[OF this] show ?case by simp
qed

lemma keyed_lookup:
  "keyed_by_fingerprint tm \<Longrightarrow> dict_get tm k = Some e \<Longrightarrow> k = entry_fingerprint e"
  by (auto simp: keyed_by_fingerprint_def dict_get_def list_all_iff dest!: map_of_SomeD)

text \<open>
  Claim C9.  After any sequence of \<^verbatim>\<open>process_string\<close> calls on a new processor, every key
  of the translation map is the fingerprint computed from the fields its entry stores.
\<close>

theorem translation_map_keyed_by_fingerprint:
  "keyed_by_fingerprint (translation_map (process_calls processor_init cs))
   \<and> (\<forall>k e. dict_get (translation_map (process_calls processor_init cs)) k = Some e
          \<longrightarrow> k = entry_fingerprint e)"
proof -
  have inv: "keyed_by_fingerprint (translation_map (process_calls processor_init cs))"
    by (rule keyed_process_calls) (simp add: processor_init_def keyed_by_fingerprint_def)
  show ?thesis using inv keyed_lookup[OF inv] by blast
qed


theorem translation_map_keyed_by_fingerprint_witness:
  "(let tm = translation_map (process_calls processor_init
               [(''Hello'', ''data/Map001.json'', ''events.1.pages.0.list.0.parameters.0'',
                 Some ''1'', Some ''001'')])
    in length tm = 1 \<and> keyed_by_fingerprint tm
       \<and> fst (hd tm) = entry_fingerprint (snd (hd tm)))"
  using translation_map_keyed_by_fingerprint[of
      "[(''Hello'', ''data/Map001.json'', ''events.1.pages.0.list.0.parameters.0'',
         Some ''1'', Some ''001'')]"]
  by (simp add: Let_def process_calls_def process_string_def generate_fingerprint_value
        processor_init_def dict_get_def)

section \<open>Merging translations\<close>

text \<open>
  Claim C8.  A merge whose fingerprint is not a key of the map changes only the counter of
  skipped merges and the output, where it adds the warning.  In a whole import no key is
  added, the skipped merges are counted and each has its warning, the summary ends with
  their number when there is one, and the map written is the loaded map with the merges of
  the known fingerprints set, in their order: the import goes on after an unknown
  fingerprint, and no entry is changed by it.
\<close>

theorem unknown_fingerprint_is_skipped:
  "(map_of (imp_map st) fp = None \<longrightarrow>
      merge_translation lang translated_text st fp
        = st\<lparr>imp_output := imp_output st @ [FingerprintNotFound fp],
             skipped := skipped st + 1\<rparr>)
   \<and> dict_keys (imp_map (excel_to_translation_map lang tm rows)) = dict_keys tm
   \<and> skipped (excel_to_translation_map lang tm rows)
       = length (filter (unknown tm) (sheet_merges rows))
   \<and> processed (excel_to_translation_map lang tm rows)
       = length (filter (\<lambda>m. \<not> unknown tm m) (sheet_merges rows))
   \<and> filter is_warning (imp_output (excel_to_translation_map lang tm rows))
       = map (\<lambda>m. FingerprintNotFound (fst m)) (filter (unknown tm) (sheet_merges rows))
   \<and> (0 < skipped (excel_to_translation_map lang tm rows) \<longrightarrow>
        last (imp_output (excel_to_translation_map lang tm rows))
          = Skipped (skipped (excel_to_translation_map lang tm rows)))
   \<and> imp_map (excel_to_translation_map lang tm rows)
       = foldl (set_translation lang) tm (filter (\<lambda>m. \<not> unknown tm m) (sheet_merges rows))"
proof -
  let ?init = "\<lparr>imp_map = tm, processed = 0, skipped = 0, imp_output = []\<rparr>"
  let ?fin = "apply_merges lang ?init (sheet_merges rows)"
  have run: "foldl (import_row lang) ?init rows = ?fin" by (rule import_rows_merges)
  have keys: "dict_keys (imp_map ?fin) = dict_keys tm"
    using apply_merges_keys[of lang ?init "sheet_merges rows"] by simp
  have eff: "skipped ?fin = length (filter (unknown tm) (sheet_merges rows))"
    "processed ?fin = length (filter (\<lambda>m. \<not> unknown tm m) (sheet_merges rows))"
    "imp_output ?fin = map (\<lambda>m. FingerprintNotFound (fst m)) (filter (unknown tm) (sheet_merges rows))"
    "imp_map ?fin = foldl (set_translation lang) tm (filter (\<lambda>m. \<not> unknown tm m) (sheet_merges rows))"
    using apply_merges_effect[of ?init tm lang "sheet_merges rows"] by simp_all
  have res: "excel_to_translation_map lang tm rows =
      ?fin\<lparr>imp_output := (if skipped ?fin > 0
                           then imp_output ?fin @ [Processed (processed ?fin)] @ [Skipped (skipped ?fin)]
                           else imp_output ?fin @ [Processed (processed ?fin)])\<rparr>"
    by (simp add: excel_to_translation_map_def Let_def run)
  have step: "merge_translation lang translated_text st fp
        = st\<lparr>imp_output := imp_output st @ [FingerprintNotFound fp], skipped := skipped st + 1\<rparr>"
    if "map_of (imp_map st) fp = None"
    using that by (rule merge_translation_unknown)
  have warn: "filter is_warning (imp_output (excel_to_translation_map lang tm rows))
       = map (\<lambda>m. FingerprintNotFound (fst m)) (filter (unknown tm) (sheet_merges rows))"
    unfolding res by (simp add: eff(3) filter_warnings)
  show ?thesis
    using step warn keys eff(1,2,4) by (simp add: res)
qed

theorem unknown_fingerprint_is_skipped_witness:
  "(let e = \<lparr>original = ''Hello'',
             ctx = \<lparr>ctx_file = ''data/Map001.json'',
                    ctx_path = ''events.0.pages.0.list.1.parameters.0'',
                    ctx_event_id = Some ''0'', ctx_map_id = Some ''001''\<rparr>,
             trans = None\<rparr>;
        res = excel_to_translation_map ''fr'' [(''371871dd9a0005d0'', e)]
                [\<lparr>row_fingerprint = ''371871dd9a0005d0; 0000000000000000'',
                  row_translation = Some ''Bonjour''\<rparr>]
    in imp_map res = [(''371871dd9a0005d0'', e\<lparr>trans := Some [(''fr'', ''Bonjour'')]\<rparr>)]
       \<and> skipped res = 1 \<and> processed res = 1
       \<and> filter is_warning (imp_output res) = [FingerprintNotFound ''0000000000000000'']
       \<and> last (imp_output res) = Skipped 1)"
proof -
  let ?e = "\<lparr>original = ''Hello'',
             ctx = \<lparr>ctx_file = ''data/Map001.json'',
                    ctx_path = ''events.0.pages.0.list.1.parameters.0'',
                    ctx_event_id = Some ''0'', ctx_map_id = Some ''001''\<rparr>,
             trans = None\<rparr>"
  let ?tm = "[(''371871dd9a0005d0'', ?e)]"
  let ?row = "\<lparr>row_fingerprint = ''371871dd9a0005d0; 0000000000000000'',
                  row_translation = Some ''Bonjour''\<rparr>"
  have fps: "row_fingerprints ?row = [''371871dd9a0005d0'', ''0000000000000000'']"
    by (simp add: row_fingerprints_def strip_def is_space_def)
  have m: "sheet_merges [?row]
      = [(''371871dd9a0005d0'', ''Bonjour''), (''0000000000000000'', ''Bonjour'')]"
    by (simp add: sheet_merges_def row_merges_def fps)
  have u: "unknown ?tm (''0000000000000000'', ''Bonjour'')"
    "\<not> unknown ?tm (''371871dd9a0005d0'', ''Bonjour'')"
    by (simp_all add: unknown_def)
  have f: "foldl (set_translation ''fr'') ?tm [(''371871dd9a0005d0'', ''Bonjour'')]
      = [(''371871dd9a0005d0'', ?e\<lparr>trans := Some [(''fr'', ''Bonjour'')]\<rparr>)]"
    by (simp add: set_translation_def)
  note inst = unknown_fingerprint_is_skipped[of
      "\<lparr>imp_map = ?tm, processed = 0, skipped = 0, imp_output = []\<rparr>" "''0000000000000000''"
      "''fr''" "''Bonjour''" ?tm "[?row]"]
  have s: "skipped (excel_to_translation_map ''fr'' ?tm [?row]) = 1"
    "processed (excel_to_translation_map ''fr'' ?tm [?row]) = 1"
    using inst by (simp_all only: m filter.simps u if_True if_False list.size) simp_all
  have w: "filter is_warning (imp_output (excel_to_translation_map ''fr'' ?tm [?row]))
      = [FingerprintNotFound ''0000000000000000'']"
    using inst by (simp only: m filter.simps u if_True if_False list.map fst_conv)
  have i: "imp_map (excel_to_translation_map ''fr'' ?tm [?row])
      = [(''371871dd9a0005d0'', ?e\<lparr>trans := Some [(''fr'', ''Bonjour'')]\<rparr>)]"
    using inst by (simp only: m filter.simps u if_True if_False not_True_eq_False not_False_eq_True f)
  have l: "last (imp_output (excel_to_translation_map ''fr'' ?tm [?row])) = Skipped 1"
    using inst s(1) by simp
  show ?thesis
    unfolding Let_def using s w i l by blast
qed

section \<open>Patching a file\<close>

text \<open>
  Claim C4, as stated, fails at the final write: a numeric last segment applied to a
  mapping is stored as a key of the mapping, where index addressing has no result.  The
  file then holds the field \<^verbatim>\<open>"0"\<close> twice, and loads with the new text as its value.
\<close>

theorem numeric_last_segment_keys_a_mapping:
  "apply_patch (JObj [(KStr ''terms'', JObj [(KStr ''messages'', JObj [(KStr ''0'', JStr ''x'')])])])
       ''terms.messages.0'' ''T''
     = Inr (JObj [(KStr ''terms'', JObj [(KStr ''messages'',
              JObj [(KStr ''0'', JStr ''x''), (KInt 0, JStr ''T'')])])])
   \<and> addr_write addr_put
         (JObj [(KStr ''terms'', JObj [(KStr ''messages'', JObj [(KStr ''0'', JStr ''x'')])])])
         ''terms.messages.0'' (JStr ''T'') = None
   \<and> json_dump (JObj [(KStr ''terms'', JObj [(KStr ''messages'',
              JObj [(KStr ''0'', JStr ''x''), (KInt 0, JStr ''T'')])])])
       = JObj [(KStr ''terms'', JObj [(KStr ''messages'',
              JObj [(KStr ''0'', JStr ''x''), (KStr ''0'', JStr ''T'')])])]
   \<and> json_load (JObj [(KStr ''terms'', JObj [(KStr ''messages'',
              JObj [(KStr ''0'', JStr ''x''), (KStr ''0'', JStr ''T'')])])])
       = JObj [(KStr ''terms'', JObj [(KStr ''messages'', JObj [(KStr ''0'', JStr ''T'')])])]"
  by (simp add: apply_patch_def path_component_def isdigit_def is_digit_char_def
        is_decimal_char_def py_int_def addr_write_def classify_def parses_as_index_def
        str_nat.simps[of 0])

text \<open>
  Claim C4, amended.  On a loaded document, applying a path succeeds exactly when no
  segment is made of digit characters that \<^verbatim>\<open>int\<close> rejects and the walk of the
  classified segments succeeds, with the same result: at every step before the last a
  segment of decimal digits is a sequence index and every other segment a mapping key; at
  the final write the same holds, and a segment of decimal digits applied to a mapping is
  stored as an integer key of that mapping.  Where the index and key addressing of the
  specification has a result, the patch has the same one.
\<close>

theorem patch_path_segments:
  "str_keyed data \<Longrightarrow>
     (apply_patch data path new_text = Inr data' \<longleftrightarrow>
        (list_all (\<lambda>s. \<not> int_error s) (split CHR ''.'' path)
         \<and> addr_write addr_put_py data path (JStr new_text) = Some data'))
     \<and> (list_all (\<lambda>s. \<not> int_error s) (split CHR ''.'' path)
          \<and> addr_write addr_put data path (JStr new_text) = Some data'
         \<longrightarrow> apply_patch data path new_text = Inr data')"
proof -
  assume k: "str_keyed data"
  have "addr_write addr_put data path (JStr new_text) = Some data'
      \<Longrightarrow> addr_write addr_put_py data path (JStr new_text) = Some data'"
    unfolding addr_write_def Let_def by (rule addr_walk_py_extends)
  then show ?thesis
    using apply_patch_addr_write[OF k, of path new_text data'] by blast
qed

theorem patch_path_segments_witness:
  "str_keyed (JObj [(KStr ''events'', JList [JNull, JObj [(KStr ''name'', JStr ''EV001'')]])])
   \<and> apply_patch (JObj [(KStr ''events'', JList [JNull, JObj [(KStr ''name'', JStr ''EV001'')]])])
         ''events.1.name'' ''Bonjour''
       = Inr (JObj [(KStr ''events'', JList [JNull, JObj [(KStr ''name'', JStr ''Bonjour'')]])])
   \<and> addr_write addr_put_py
         (JObj [(KStr ''events'', JList [JNull, JObj [(KStr ''name'', JStr ''EV001'')]])])
         ''events.1.name'' (JStr ''Bonjour'')
       = Some (JObj [(KStr ''events'', JList [JNull, JObj [(KStr ''name'', JStr ''Bonjour'')]])])"
  using patch_path_segments[of
      "JObj [(KStr ''events'', JList [JNull, JObj [(KStr ''name'', JStr ''EV001'')]])]"
      "''events.1.name''" "''Bonjour''"
      "JObj [(KStr ''events'', JList [JNull, JObj [(KStr ''name'', JStr ''Bonjour'')]])]"]
  by (simp add: addr_write_def classify_def parses_as_index_def is_decimal_char_def
        int_error_def isdigit_def is_digit_char_def)

text \<open>
  Claim C5, as stated, fails for the last segment: a field that the mapping does not have
  is created, \<^verbatim>\<open>patch_file\<close> raises nothing and saves the file.
\<close>

theorem missing_last_field_is_created:
  "addr_read (JList [JNull, JObj [(KStr ''name'', JStr ''Potion'')]])
       (path_segments ''1.description'') = None
   \<and> patch_file
         (Map.empty(''data/Items.json'' \<mapsto> JList [JNull, JObj [(KStr ''name'', JStr ''Potion'')]]))
         ''data/Items.json'' [(''1.description'', ''Soin'')]
       = (Map.empty(''data/Items.json'' \<mapsto>
            JList [JNull, JObj [(KStr ''name'', JStr ''Potion''),
                                (KStr ''description'', JStr ''Soin'')]]),
          None)"
  by (simp add: patch_file_def apply_patch_def path_component_def isdigit_def is_digit_char_def
        is_decimal_char_def py_int_def path_segments_def classify_def parses_as_index_def)

text \<open>
  Claim C5, amended.  On a loaded document, applying a patch raises an exception if a
  segment before the last does not exist or does not match the type of the value it is
  applied to, if the last segment is applied to a sequence and is a field name or an index
  out of its range (the sequence is not grown), if it is applied to a value that is
  neither a sequence nor a mapping, or if a segment is made of digit characters that
  \<^verbatim>\<open>int\<close> rejects.  Otherwise, applied to a mapping, the last segment is written: the
  patch succeeds, the mapping has the new text under the segment's key, in place when the
  field exists and as a new last field when it does not, and nothing else in the document
  changes.  When the application of a patch raises, \<^verbatim>\<open>patch_file\<close> raises that exception
  and leaves every file as it was.
\<close>

theorem patch_file_fails_without_saving:
  "(str_keyed data \<longrightarrow>
      (addr_read data (butlast (path_segments path)) = None
         \<longrightarrow> isl (apply_patch data path new_text))
    \<and> (\<forall>xs k. addr_read data (butlast (path_segments path)) = Some (JList xs)
            \<and> last (path_segments path) = Field k
         \<longrightarrow> isl (apply_patch data path new_text))
    \<and> (\<forall>xs n. addr_read data (butlast (path_segments path)) = Some (JList xs)
            \<and> last (path_segments path) = Index n \<and> length xs \<le> n
         \<longrightarrow> isl (apply_patch data path new_text))
    \<and> (\<forall>parent. addr_read data (butlast (path_segments path)) = Some parent
            \<and> (\<forall>xs. parent \<noteq> JList xs) \<and> (\<forall>kvs. parent \<noteq> JObj kvs)
         \<longrightarrow> isl (apply_patch data path new_text))
    \<and> (list_ex int_error (split CHR ''.'' path) \<longrightarrow> isl (apply_patch data path new_text))
    \<and> (\<forall>kvs. addr_read data (butlast (path_segments path)) = Some (JObj kvs)
            \<and> list_all (\<lambda>s. \<not> int_error s) (split CHR ''.'' path)
         \<longrightarrow> (\<exists>data'. apply_patch data path new_text = Inr data'
                \<and> addr_write addr_put_py data path (JStr new_text) = Some data'
                \<and> addr_read data' (butlast (path_segments path))
                    = Some (JObj (dict_set (segment_key (last (path_segments path)))
                                    (JStr new_text) kvs)))))
   \<and> (fs file_path = Some doc \<and> apply_patches (json_load doc) before = Inr data
        \<and> apply_patch data path new_text = Inl e
      \<longrightarrow> patch_file fs file_path (before @ (path, new_text) # after) = (fs, Some e))"
proof -
  have saved: "patch_file fs file_path (before @ (path, new_text) # after) = (fs, Some e)"
    if "fs file_path = Some doc" "apply_patches (json_load doc) before = Inr data"
      "apply_patch data path new_text = Inl e"
    using that by (simp add: patch_file_def apply_patches_append)
  have doc: ?thesis if k: "str_keyed data"
  proof -
    note f = apply_patch_fails_iff[OF k, of path new_text]
    have a1: "isl (apply_patch data path new_text)"
      if "addr_read data (butlast (path_segments path)) = None"
      using that f by simp
    have a2: "isl (apply_patch data path new_text)"
      if "addr_read data (butlast (path_segments path)) = Some (JList xs)"
        "last (path_segments path) = Field k" for xs k
      using that f by simp
    have a3: "isl (apply_patch data path new_text)"
      if "addr_read data (butlast (path_segments path)) = Some (JList xs)"
        "last (path_segments path) = Index n" "length xs \<le> n" for xs n
      using that f by simp
    have a4: "isl (apply_patch data path new_text)"
      if "addr_read data (butlast (path_segments path)) = Some parent"
        "\<And>xs. parent \<noteq> JList xs" "\<And>kvs. parent \<noteq> JObj kvs" for parent
      using that f by (cases parent) auto
    have a5: "isl (apply_patch data path new_text)"
      if "list_ex int_error (split CHR ''.'' path)"
      using apply_patch_int_error[OF k that] .
    have a6: "\<exists>data'. apply_patch data path new_text = Inr data'
        \<and> addr_write addr_put_py data path (JStr new_text) = Some data'
        \<and> addr_read data' (butlast (path_segments path))
            = Some (JObj (dict_set (segment_key (last (path_segments path)))
                            (JStr new_text) kvs))"
      if "addr_read data (butlast (path_segments path)) = Some (JObj kvs)"
        "list_all (\<lambda>s. \<not> int_error s) (split CHR ''.'' path)" for kvs
      using apply_patch_on_mapping[OF k that(2) that(1)] .
    show ?thesis using a1 a2 a3 a4 a5 a6 saved by blast
  qed
  show ?thesis using doc saved by blast
qed

theorem patch_file_fails_without_saving_witness:
  "str_keyed (JList [JNull, JObj [(KStr ''name'', JStr ''Potion'')]])
   \<and> addr_read (JList [JNull, JObj [(KStr ''name'', JStr ''Potion'')]])
         (butlast (path_segments ''5.name'')) = None
   \<and> isl (apply_patch (JList [JNull, JObj [(KStr ''name'', JStr ''Potion'')]]) ''5.name'' ''Soin'')
   \<and> patch_file
         (Map.empty(''data/Items.json'' \<mapsto> JList [JNull, JObj [(KStr ''name'', JStr ''Potion'')]]))
         ''data/Items.json'' [(''1.name'', ''Soin''), (''5.name'', ''Soin'')]
       = (Map.empty(''data/Items.json'' \<mapsto> JList [JNull, JObj [(KStr ''name'', JStr ''Potion'')]]),
          Some IndexError)
   \<and> (\<exists>data'. apply_patch (JList [JNull, JObj [(KStr ''name'', JStr ''Potion'')]])
                  ''1.description'' ''Soin'' = Inr data'
          \<and> addr_read data' [Index 1]
              = Some (JObj [(KStr ''name'', JStr ''Potion''),
                            (KStr ''description'', JStr ''Soin'')]))"
proof -
  let ?doc = "JList [JNull, JObj [(KStr ''name'', JStr ''Potion'')]]"
  let ?data = "JList [JNull, JObj [(KStr ''name'', JStr ''Soin'')]]"
  let ?fs = "Map.empty(''data/Items.json'' \<mapsto> ?doc)"
  have digits: "path_component ''5'' = Inr (KInt 5)" "path_component ''1'' = Inr (KInt 1)"
    "path_component ''name'' = Inr (KStr ''name'')"
    by (simp_all add: path_component_def isdigit_def is_digit_char_def is_decimal_char_def
          py_int_def)
  have k: "str_keyed ?doc" by simp
  have r: "addr_read ?doc (butlast (path_segments ''5.name'')) = None"
    by (simp add: path_segments_def classify_def parses_as_index_def is_decimal_char_def)
  have b: "apply_patches (json_load ?doc) [(''1.name'', ''Soin'')] = Inr ?data"
    by (simp add: apply_patch_def digits)
  have e: "apply_patch ?data ''5.name'' ''Soin'' = Inl IndexError"
    by (simp add: apply_patch_def digits)
  have segs: "path_segments ''1.description'' = [Index 1, Field ''description'']"
    by (simp add: path_segments_def classify_def parses_as_index_def is_decimal_char_def)
  have parent: "addr_read ?doc (butlast (path_segments ''1.description''))
      = Some (JObj [(KStr ''name'', JStr ''Potion'')])"
    by (simp add: segs)
  have ok: "list_all (\<lambda>s. \<not> int_error s) (split CHR ''.'' ''1.description'')"
    by (simp add: int_error_def isdigit_def is_digit_char_def is_decimal_char_def
          parses_as_index_def)
  have written: "\<exists>data'. apply_patch ?doc ''1.description'' ''Soin'' = Inr data'
      \<and> addr_read data' [Index 1]
          = Some (JObj [(KStr ''name'', JStr ''Potion''), (KStr ''description'', JStr ''Soin'')])"
    using patch_file_fails_without_saving[of ?doc "''1.description''" "''Soin''" ?fs
        "''data/Items.json''" ?doc "[]" IndexError "[]"] k parent ok
    by (simp add: segs) blast
  show ?thesis
    using patch_file_fails_without_saving[of ?doc "''5.name''" "''Soin''" ?fs
        "''data/Items.json''" ?doc "[(''1.name'', ''Soin'')]" IndexError "[]"]
      patch_file_fails_without_saving[of ?data "''5.name''" "''Soin''" ?fs
        "''data/Items.json''" ?doc "[(''1.name'', ''Soin'')]" IndexError "[]"]
      k r b e written
    by simp
qed

section \<open>The patch run\<close>

text \<open>
  Claim C6, as stated, fails: the patches of \<^verbatim>\<open>data/Items.json\<close> name an index the file
  does not have, \<^verbatim>\<open>patch_file\<close> raises, and the run ends there.  \<^verbatim>\<open>data/Actors.json\<close>,
  whose patch would succeed, is left as it was, and the exit status is 0.
\<close>

theorem failed_file_stops_the_run:
  "(let items = JList [JNull, JObj [(KStr ''name'', JStr ''Potion'')]];
        actors = JList [JNull, JObj [(KStr ''name'', JStr ''Harold'')]];
        fs = Map.empty(''data/Items.json'' \<mapsto> items, ''data/Actors.json'' \<mapsto> actors);
        self = \<lparr>patcher_map =
                 [(''22a8eea6804358a2'',
                   \<lparr>original = ''Ether'',
                    ctx = \<lparr>ctx_file = ''data/Items.json'', ctx_path = ''2.name'',
                           ctx_event_id = None, ctx_map_id = None\<rparr>,
                    trans = Some [(''fr'', ''Ether'')]\<rparr>),
                  (''a301f9519cc955a2'',
                   \<lparr>original = ''Harold'',
                    ctx = \<lparr>ctx_file = ''data/Actors.json'', ctx_path = ''1.name'',
                           ctx_event_id = None, ctx_map_id = None\<rparr>,
                    trans = Some [(''fr'', ''Harald'')]\<rparr>)],
               language = ''fr''\<rparr>
    in main_patch self fs =
         \<lparr>run_files = fs,
          run_output = [Patching ''data/Items.json'', ErrorDuringPatching IndexError],
          exit_status = 0\<rparr>
       \<and> run_files (main_patch self fs) ''data/Actors.json'' = Some actors
       \<and> patch_file fs ''data/Actors.json'' [(''1.name'', ''Harald'')]
           = (fs(''data/Actors.json'' \<mapsto>
                  JList [JNull, JObj [(KStr ''name'', JStr ''Harald'')]]), None))"
  by (simp add: Let_def main_patch_def patch_all_files_def group_patches_def add_patch_def
        patch_target_def patch_file_def apply_patch_def path_component_def isdigit_def
        is_digit_char_def is_decimal_char_def py_int_def)


text \<open>
  Claim C6, amended.  An exception while patching one file ends the patch run: the files
  patched before it stay written, the failing file is left as it was, the files after it
  are not processed, \<^verbatim>\<open>main\<close> reports the error once after the line of the failing file,
  and the run finishes with exit status 0, as it does when no file fails.
\<close>

theorem patch_run_stops_at_first_failure:
  "exit_status (main_patch self fs) = 0
   \<and> (group_patches self = before @ (file_path, patches) # after
        \<and> patch_files fs [] before = (fs1, out1, None)
        \<and> snd (patch_target fs1 file_path patches) = Some e
      \<longrightarrow> main_patch self fs =
            \<lparr>run_files = fs1,
             run_output = out1 @ [Patching file_path, ErrorDuringPatching e],
             exit_status = 0\<rparr>)"
proof -
  have "main_patch self fs =
      \<lparr>run_files = fs1, run_output = out1 @ [Patching file_path, ErrorDuringPatching e],
       exit_status = 0\<rparr>"
    if g: "group_patches self = before @ (file_path, patches) # after"
      and b: "patch_files fs [] before = (fs1, out1, None)"
      and t: "snd (patch_target fs1 file_path patches) = Some e"
  proof -
    obtain fs2 where t2: "patch_target fs1 file_path patches = (fs2, Some e)"
      using t by (cases "patch_target fs1 file_path patches") auto
    then have "fs2 = fs1" by (rule patch_target_error_keeps)
    with t2 have "patch_files fs [] (before @ (file_path, patches) # after)
        = (fs1, out1 @ [Patching file_path], Some e)"
      using b by (simp add: patch_files_append)
    then show ?thesis using g by (simp add: main_patch_def patch_all_files_def)
  qed
  then show ?thesis using exit_status_zero by blast
qed


theorem patch_run_stops_at_first_failure_witness:
  "(let actors = JList [JNull, JObj [(KStr ''name'', JStr ''Harold'')]];
        items = JList [JNull, JObj [(KStr ''name'', JStr ''Potion'')]];
        weapons = JList [JNull, JObj [(KStr ''name'', JStr ''Sword'')]];
        fs = Map.empty(''data/Actors.json'' \<mapsto> actors, ''data/Items.json'' \<mapsto> items,
                       ''data/Weapons.json'' \<mapsto> weapons);
        self = \<lparr>patcher_map =
                 [(''a301f9519cc955a2'',
                   \<lparr>original = ''Harold'',
                    ctx = \<lparr>ctx_file = ''data/Actors.json'', ctx_path = ''1.name'',
                           ctx_event_id = None, ctx_map_id = None\<rparr>,
                    trans = Some [(''fr'', ''Harald'')]\<rparr>),
                  (''22a8eea6804358a2'',
                   \<lparr>original = ''Ether'',
                    ctx = \<lparr>ctx_file = ''data/Items.json'', ctx_path = ''2.name'',
                           ctx_event_id = None, ctx_map_id = None\<rparr>,
                    trans = Some [(''fr'', ''Ether'')]\<rparr>),
                  (''d100ccb36f68e2b4'',
                   \<lparr>original = ''Sword'',
                    ctx = \<lparr>ctx_file = ''data/Weapons.json'', ctx_path = ''1.name'',
                           ctx_event_id = None, ctx_map_id = None\<rparr>,
                    trans = Some [(''fr'', ''Epee'')]\<rparr>)],
               language = ''fr''\<rparr>
    in main_patch self fs =
         \<lparr>run_files = fs(''data/Actors.json'' \<mapsto>
                          JList [JNull, JObj [(KStr ''name'', JStr ''Harald'')]]),
          run_output = [Patching ''data/Actors.json'', Patching ''data/Items.json'',
                        ErrorDuringPatching IndexError],
          exit_status = 0\<rparr>)"
proof -
  let ?actors = "JList [JNull, JObj [(KStr ''name'', JStr ''Harold'')]]"
  let ?items = "JList [JNull, JObj [(KStr ''name'', JStr ''Potion'')]]"
  let ?weapons = "JList [JNull, JObj [(KStr ''name'', JStr ''Sword'')]]"
  let ?fs = "Map.empty(''data/Actors.json'' \<mapsto> ?actors, ''data/Items.json'' \<mapsto> ?items,
                       ''data/Weapons.json'' \<mapsto> ?weapons)"
  let ?fs1 = "?fs(''data/Actors.json'' \<mapsto> JList [JNull, JObj [(KStr ''name'', JStr ''Harald'')]])"
  let ?self = "\<lparr>patcher_map =
                 [(''a301f9519cc955a2'',
                   \<lparr>original = ''Harold'',
                    ctx = \<lparr>ctx_file = ''data/Actors.json'', ctx_path = ''1.name'',
                           ctx_event_id = None, ctx_map_id = None\<rparr>,
                    trans = Some [(''fr'', ''Harald'')]\<rparr>),
                  (''22a8eea6804358a2'',
                   \<lparr>original = ''Ether'',
                    ctx = \<lparr>ctx_file = ''data/Items.json'', ctx_path = ''2.name'',
                           ctx_event_id = None, ctx_map_id = None\<rparr>,
                    trans = Some [(''fr'', ''Ether'')]\<rparr>),
                  (''d100ccb36f68e2b4'',
                   \<lparr>original = ''Sword'',
                    ctx = \<lparr>ctx_file = ''data/Weapons.json'', ctx_path = ''1.name'',
                           ctx_event_id = None, ctx_map_id = None\<rparr>,
                    trans = Some [(''fr'', ''Epee'')]\<rparr>)],
               language = ''fr''\<rparr>"
  have digits: "path_component ''1'' = Inr (KInt 1)" "path_component ''2'' = Inr (KInt 2)"
    "path_component ''name'' = Inr (KStr ''name'')"
    by (simp_all add: path_component_def isdigit_def is_digit_char_def is_decimal_char_def
          py_int_def)
  have g: "group_patches ?self =
      [(''data/Actors.json'', [(''1.name'', ''Harald'')])]
      @ (''data/Items.json'', [(''2.name'', ''Ether'')])
      # [(''data/Weapons.json'', [(''1.name'', ''Epee'')])]"
    by (simp add: group_patches_def add_patch_def Let_def)
  have b: "patch_files ?fs [] [(''data/Actors.json'', [(''1.name'', ''Harald'')])]
      = (?fs1, [Patching ''data/Actors.json''], None)"
    by (simp add: patch_target_def patch_file_def apply_patch_def digits)
  have t: "snd (patch_target ?fs1 ''data/Items.json'' [(''2.name'', ''Ether'')]) = Some IndexError"
    by (simp add: patch_target_def patch_file_def apply_patch_def digits)
  show ?thesis
    using patch_run_stops_at_first_failure[of ?self ?fs
        "[(''data/Actors.json'', [(''1.name'', ''Harald'')])]" "''data/Items.json''"
        "[(''2.name'', ''Ether'')]" "[(''data/Weapons.json'', [(''1.name'', ''Epee'')])]"
        ?fs1 "[Patching ''data/Actors.json'']" IndexError] g b t
    by (simp add: Let_def)
qed

section \<open>Patching the misc file\<close>

text \<open>
  Claim C10, as stated, fails: an element of \<^verbatim>\<open>misc_strings\<close> that is not a mapping has no
  \<^verbatim>\<open>get\<close>, so a patch whose id no element has raises \<^verbatim>\<open>AttributeError\<close> when the loop
  reaches that element, and the file is not written.
\<close>

theorem unmatched_patch_raises_on_other_shapes:
  "(let doc = JObj [(KStr ''misc_strings'',
                JList [JStr ''x'',
                       JObj [(KStr ''id'', JStr ''a''), (KStr ''text'', JStr ''Hi'')]])];
        fs = Map.empty(''rmmvlt_misc.json'' \<mapsto> doc)
    in \<not> list_ex (has_id (drop 5 ''misc.zzz'')) (misc_items doc)
       \<and> patch_misc_file fs ''rmmvlt_misc.json'' [(''misc.zzz'', ''T'')]
           = (fs, Some AttributeError)
       \<and> patch_target fs ''rmmvlt_misc.json'' [(''misc.zzz'', ''T'')]
           = (fs, Some AttributeError))"
  by (simp add: Let_def misc_items_def patch_target_def patch_misc_file_def patch_misc_one_def
        startswith_def)

text \<open>
  Claim C10, amended.  On a misc document whose root is a mapping and whose
  \<^verbatim>\<open>misc_strings\<close>, when present, is a sequence of mappings, \<^verbatim>\<open>patch_misc_file\<close> raises
  nothing, whatever the patches.  A patch whose path does not start with \<^verbatim>\<open>misc.\<close>, or
  whose id no element has, leaves the document as it is, and nothing is printed; when no
  patch matches, the loaded document is written back.  When elements share the id, the
  first one gets the text, and the elements after it and the rest of the document stay as
  they are.
\<close>

theorem patch_misc_unmatched_is_ignored:
  "misc_document data \<Longrightarrow>
     (\<exists>data'. patch_misc_all data patches = Inr data' \<and> misc_document data')
     \<and> (fs file_path = Some doc \<and> json_load doc = data
          \<longrightarrow> snd (patch_misc_file fs file_path patches) = None)
     \<and> (\<not> startswith path ''misc.'' \<longrightarrow> patch_misc_one data path new_text = Inr data)
     \<and> (\<not> list_ex (has_id (drop 5 path)) (misc_items data)
          \<longrightarrow> patch_misc_one data path new_text = Inr data)
     \<and> (list_all (\<lambda>p. \<not> startswith (fst p) ''misc.''
                      \<or> \<not> list_ex (has_id (drop 5 (fst p))) (misc_items data)) patches
          \<and> fs file_path = Some doc \<and> json_load doc = data
          \<longrightarrow> patch_misc_file fs file_path patches = (fs(file_path \<mapsto> json_dump data), None))
     \<and> (\<forall>pre kvs post.
           startswith path ''misc.'' \<and> misc_items data = pre @ JObj kvs # post
           \<and> has_id (drop 5 path) (JObj kvs) \<and> \<not> list_ex (has_id (drop 5 path)) pre
          \<longrightarrow> (\<exists>data'. patch_misc_one data path new_text = Inr data'
                 \<and> misc_items data'
                     = pre @ JObj (dict_set (KStr ''text'') (JStr new_text) kvs) # post))
     \<and> (\<forall>pre kvs post kvs0.
           startswith path ''misc.'' \<and> data = JObj kvs0
           \<and> misc_items data = pre @ JObj kvs # post
           \<and> has_id (drop 5 path) (JObj kvs) \<and> \<not> list_ex (has_id (drop 5 path)) pre
          \<longrightarrow> patch_misc_one data path new_text
              = Inr (JObj (dict_set (KStr ''misc_strings'')
                      (JList (pre @ JObj (dict_set (KStr ''text'') (JStr new_text) kvs) # post))
                      kvs0)))"
proof -
  assume wf: "misc_document data"
  have c1: "\<exists>data'. patch_misc_all data patches = Inr data' \<and> misc_document data'"
    by (rule patch_misc_all_wf[OF wf])
  have c2: "snd (patch_misc_file fs file_path patches) = None"
    if "fs file_path = Some doc" "json_load doc = data"
    using that c1 by (auto simp: patch_misc_file_def)
  have c3: "patch_misc_one data path new_text = Inr data" if "\<not> startswith path ''misc.''"
    using that patch_misc_one_unmatched[OF wf] by blast
  have c4: "patch_misc_one data path new_text = Inr data"
    if "\<not> list_ex (has_id (drop 5 path)) (misc_items data)"
    using that patch_misc_one_unmatched[OF wf] by blast
  have c5: "patch_misc_file fs file_path patches = (fs(file_path \<mapsto> json_dump data), None)"
    if "list_all (\<lambda>p. \<not> startswith (fst p) ''misc.''
                      \<or> \<not> list_ex (has_id (drop 5 (fst p))) (misc_items data)) patches"
      "fs file_path = Some doc" "json_load doc = data"
    using that patch_misc_all_unmatched[OF wf that(1)] by (simp add: patch_misc_file_def)
  have c6: "\<exists>data'. patch_misc_one data path new_text = Inr data'
      \<and> misc_items data' = pre @ JObj (dict_set (KStr ''text'') (JStr new_text) kvs) # post"
    if "startswith path ''misc.''" "misc_items data = pre @ JObj kvs # post"
      "has_id (drop 5 path) (JObj kvs)" "\<not> list_ex (has_id (drop 5 path)) pre"
    for pre kvs post
    using patch_misc_one_first[OF wf that] .
  have c7: "patch_misc_one data path new_text
      = Inr (JObj (dict_set (KStr ''misc_strings'')
              (JList (pre @ JObj (dict_set (KStr ''text'') (JStr new_text) kvs) # post)) kvs0))"
    if "startswith path ''misc.''" "data = JObj kvs0" "misc_items data = pre @ JObj kvs # post"
      "has_id (drop 5 path) (JObj kvs)" "\<not> list_ex (has_id (drop 5 path)) pre"
    for pre kvs post kvs0
    using patch_misc_one_first_exact[OF wf that] .
  show ?thesis using c1 c2 c3 c4 c5 c6 c7 by blast
qed

theorem patch_misc_unmatched_is_ignored_witness:
  "(let data = JObj [(KStr ''misc_strings'',
                JList [JObj [(KStr ''id'', JStr ''greeting''), (KStr ''text'', JStr ''Hi'')],
                       JObj [(KStr ''id'', JStr ''greeting''), (KStr ''text'', JStr ''Hello'')]])]
    in misc_document data
       \<and> patch_misc_one data ''title'' ''Titre'' = Inr data
       \<and> patch_misc_one data ''misc.farewell'' ''Adieu'' = Inr data
       \<and> patch_misc_one data ''misc.greeting'' ''Salut''
           = Inr (JObj [(KStr ''misc_strings'',
                JList [JObj [(KStr ''id'', JStr ''greeting''), (KStr ''text'', JStr ''Salut'')],
                       JObj [(KStr ''id'', JStr ''greeting''), (KStr ''text'', JStr ''Hello'')]])]))"
proof -
  let ?data = "JObj [(KStr ''misc_strings'',
                JList [JObj [(KStr ''id'', JStr ''greeting''), (KStr ''text'', JStr ''Hi'')],
                       JObj [(KStr ''id'', JStr ''greeting''), (KStr ''text'', JStr ''Hello'')]])]"
  have wf: "misc_document ?data" by (simp add: misc_document_def)
  have un: "\<not> startswith ''title'' ''misc.''"
    "\<not> list_ex (has_id (drop 5 ''misc.farewell'')) (misc_items ?data)"
    by (simp_all add: startswith_def misc_items_def)
  have m: "patch_misc_one ?data ''misc.greeting'' ''Salut''
           = Inr (JObj [(KStr ''misc_strings'',
                JList [JObj [(KStr ''id'', JStr ''greeting''), (KStr ''text'', JStr ''Salut'')],
                       JObj [(KStr ''id'', JStr ''greeting''), (KStr ''text'', JStr ''Hello'')]])])"
    by (simp add: patch_misc_one_def startswith_def)
  show ?thesis
    using patch_misc_unmatched_is_ignored[OF wf, of "[]" Map.empty "''rmmvlt_misc.json''" ?data
        "''title''" "''Titre''"]
      patch_misc_unmatched_is_ignored[OF wf, of "[]" Map.empty "''rmmvlt_misc.json''" ?data
        "''misc.farewell''" "''Adieu''"]
      wf un m
    by (simp add: Let_def)
qed


section \<open>The round trip\<close>

text \<open>
  Claim C1 fails on the display name of a map.  \<^verbatim>\<open>process_map_files\<close> records it under
  the path \<^verbatim>\<open>001.displayName\<close>, which addresses nothing in the document; after the merge
  of a translation for its fingerprint, \<^verbatim>\<open>patch_file\<close> reads \<^verbatim>\<open>data[1]\<close> on the root
  mapping and raises \<^verbatim>\<open>KeyError\<close>: the file keeps the original text.
\<close>

theorem display_name_is_not_patched:
  "(let doc = JObj [(KStr ''displayName'', JStr ''Town''), (KStr ''events'', JList [JNull])];
        fs = Map.empty(''data/Map001.json'' \<mapsto> doc);
        fp = fst (generate_fingerprint processor_init ''Town'' ''data/Map001.json''
                    ''001.displayName'' None (Some ''001''));
        e = \<lparr>original = ''Town'',
             ctx = \<lparr>ctx_file = ''data/Map001.json'', ctx_path = ''001.displayName'',
                    ctx_event_id = None, ctx_map_id = Some ''001''\<rparr>,
             trans = None\<rparr>;
        merged = [(fp, e\<lparr>trans := Some [(''fr'', ''Ville'')]\<rparr>)]
    in process_map_files processor_init [(''Map001.json'', doc)]
         = Inr \<lparr>translation_map = [(fp, e)], processed_strings = {''Town''}\<rparr>
       \<and> imp_map (excel_to_translation_map ''fr'' [(fp, e)]
                    [\<lparr>row_fingerprint = fp, row_translation = Some ''Ville''\<rparr>]) = merged
       \<and> group_patches \<lparr>patcher_map = merged, language = ''fr''\<rparr>
           = [(''data/Map001.json'', [(''001.displayName'', ''Ville'')])]
       \<and> addr_read doc (path_segments ''001.displayName'') = None
       \<and> main_patch \<lparr>patcher_map = merged, language = ''fr''\<rparr> fs
           = \<lparr>run_files = fs,
              run_output = [Patching ''data/Map001.json'', ErrorDuringPatching KeyError],
              exit_status = 0\<rparr>)"
proof -
  let ?doc = "JObj [(KStr ''displayName'', JStr ''Town''), (KStr ''events'', JList [JNull])]"
  let ?fs = "Map.empty(''data/Map001.json'' \<mapsto> ?doc)"
  let ?fp = "fst (generate_fingerprint processor_init ''Town'' ''data/Map001.json''
                    ''001.displayName'' None (Some ''001''))"
  let ?e = "\<lparr>original = ''Town'',
             ctx = \<lparr>ctx_file = ''data/Map001.json'', ctx_path = ''001.displayName'',
                    ctx_event_id = None, ctx_map_id = Some ''001''\<rparr>,
             trans = None\<rparr>"
  let ?merged = "[(?fp, ?e\<lparr>trans := Some [(''fr'', ''Ville'')]\<rparr>)]"
  have recorded: "process_map_files processor_init [(''Map001.json'', ?doc)]
      = Inr \<lparr>translation_map = [(?fp, ?e)], processed_strings = {''Town''}\<rparr>"
    by (simp add: process_map_file_def and_then_def process_value_def process_string_def
          generate_fingerprint_value map_id_of_def processor_init_def)
  have fps: "row_fingerprints \<lparr>row_fingerprint = ?fp, row_translation = Some ''Ville''\<rparr> = [?fp]"
    by (rule row_fingerprints_hex) (rule fingerprint_hex)+
  have imported: "imp_map (excel_to_translation_map ''fr'' [(?fp, ?e)]
                    [\<lparr>row_fingerprint = ?fp, row_translation = Some ''Ville''\<rparr>]) = ?merged"
    by (simp add: excel_to_translation_map_def Let_def import_row_def fps merge_translation_def)
  have grouped: "group_patches \<lparr>patcher_map = ?merged, language = ''fr''\<rparr>
      = [(''data/Map001.json'', [(''001.displayName'', ''Ville'')])]"
    by (simp add: group_patches_def add_patch_def Let_def)
  have unaddressed: "addr_read ?doc (path_segments ''001.displayName'') = None"
    by (simp add: path_segments_def classify_def parses_as_index_def is_decimal_char_def)
  have patched: "main_patch \<lparr>patcher_map = ?merged, language = ''fr''\<rparr> ?fs
      = \<lparr>run_files = ?fs,
         run_output = [Patching ''data/Map001.json'', ErrorDuringPatching KeyError],
         exit_status = 0\<rparr>"
    by (simp add: main_patch_def patch_all_files_def group_patches_def add_patch_def Let_def
          patch_target_def patch_file_def apply_patch_def path_component_examples)
  show ?thesis
    unfolding Let_def using recorded imported grouped unaddressed patched by blast
qed

text \<open>
  The text of a \<^verbatim>\<open>Show Text\<close> command (code 401) makes the round trip: the example of the
  specification.
\<close>

lemma event_text_round_trip_example:
  "(let doc = JObj [(KStr ''displayName'', JStr []),
                    (KStr ''events'',
                     JList [JObj [(KStr ''pages'',
                       JList [JObj [(KStr ''list'',
                         JList [JObj [(KStr ''code'', JNum 101), (KStr ''parameters'', JList [])],
                                JObj [(KStr ''code'', JNum 401),
                                      (KStr ''parameters'', JList [JStr ''Hello''])]])]])]])];
        fs = Map.empty(''data/Map001.json'' \<mapsto> doc);
        fp = fst (generate_fingerprint processor_init ''Hello'' ''data/Map001.json''
                    ''events.0.pages.0.list.1.parameters.0'' (Some ''0'') (Some ''001''));
        e = \<lparr>original = ''Hello'',
             ctx = \<lparr>ctx_file = ''data/Map001.json'',
                    ctx_path = ''events.0.pages.0.list.1.parameters.0'',
                    ctx_event_id = Some ''0'', ctx_map_id = Some ''001''\<rparr>,
             trans = Some [(''fr'', ''Bonjour'')]\<rparr>
    in map_of (translation_map (projr (process_map_files processor_init [(''Map001.json'', doc)]))) fp
         = Some (e\<lparr>trans := None\<rparr>)
       \<and> main_patch \<lparr>patcher_map = [(fp, e)], language = ''fr''\<rparr> fs
           = \<lparr>run_files = Map.empty(''data/Map001.json'' \<mapsto>
                 JObj [(KStr ''displayName'', JStr []),
                    (KStr ''events'',
                     JList [JObj [(KStr ''pages'',
                       JList [JObj [(KStr ''list'',
                         JList [JObj [(KStr ''code'', JNum 101), (KStr ''parameters'', JList [])],
                                JObj [(KStr ''code'', JNum 401),
                                      (KStr ''parameters'', JList [JStr ''Bonjour''])]])]])]])]),
              run_output = [Patching ''data/Map001.json'', Success ''patching complete!''],
              exit_status = 0\<rparr>)"
  by (simp add: Let_def process_map_file_def process_command_def and_then_def process_value_def
        process_string_def generate_fingerprint_value map_id_of_def processor_init_def
        str_nat.simps[of 0] str_nat.simps[of "Suc 0"] dict_set_map_of
        main_patch_def patch_all_files_def group_patches_def add_patch_def patch_target_def
        patch_file_def apply_patch_def path_component_examples)



end
